theory Spec2Isabelle
  imports Main
begin

section \<open>The RSS input plugin of FlexGet (flexget/plugins/input/rss.py)\<close>

text \<open>
  The development embeds \<^verbatim>\<open>InputRSS.build_config\<close>, \<^verbatim>\<open>InputRSS.process_invalid_content\<close>,
  \<^verbatim>\<open>InputRSS.add_enclosure_info\<close> and \<^verbatim>\<open>InputRSS.on_task_input\<close>. The libraries the
  plugin calls (requests, feedparser, urlparse, posixpath, int, decode_html) are parameters
  of the model, collected in the record \<open>env\<close>; the decorators \<^verbatim>\<open>@cached\<close> and
  \<^verbatim>\<open>@internet\<close> wrap the function from outside and are not part of it.
\<close>

subsection \<open>Python values\<close>

text \<open>
  Feed text is unicode: a list of code points. Field names, configuration keys and the
  raw bytes of a document are byte strings.
\<close>

type_synonym unicode = "nat list"

datatype val =
    Str unicode
  | NoneV
  | IntV int
  | ListV "val list"
  | TupleV "val list"
  | DictV "(string \<times> val) list"

text \<open>The truth value Python gives a value in \<^verbatim>\<open>if x:\<close>.\<close>

fun truthy :: "val \<Rightarrow> bool" where
  "truthy (Str s) = (s \<noteq> [])"
| "truthy NoneV = False"
| "truthy (IntV i) = (i \<noteq> 0)"
| "truthy (ListV l) = (l \<noteq> [])"
| "truthy (TupleV l) = (l \<noteq> [])"
| "truthy (DictV d) = (d \<noteq> [])"

text \<open>\<^verbatim>\<open>x.get(k)\<close> followed by a truth test: a missing key gives None, which is false.\<close>

definition truthy_opt :: "val option \<Rightarrow> bool" where
  "truthy_opt v = (case v of None \<Rightarrow> False | Some x \<Rightarrow> truthy x)"

text \<open>\<^verbatim>\<open>d.get(k, default)\<close>, on the result of the lookup.\<close>

definition get_default :: "'a option \<Rightarrow> 'a \<Rightarrow> 'a" where
  "get_default v d = (case v of None \<Rightarrow> d | Some x \<Rightarrow> x)"

text \<open>\<^verbatim>\<open>isinstance(x, basestring)\<close>.\<close>

fun is_basestring :: "val \<Rightarrow> bool" where
  "is_basestring (Str s) = True"
| "is_basestring v = False"

datatype error =
    PluginError
  | KeyError
  | ValueError
  | AttributeError
  | TypeError
  | IndexError
  | IOError
  | BozoBadStatusLine
  | BozoIOError

text \<open>
  The operator \<^verbatim>\<open>+\<close>: text with text, numbers with numbers, a list with a list and a
  tuple with a tuple; every other pair of operands raises TypeError.
\<close>

fun py_add :: "val \<Rightarrow> val \<Rightarrow> error + val" where
  "py_add (Str a) (Str b) = Inr (Str (a @ b))"
| "py_add (IntV a) (IntV b) = Inr (IntV (a + b))"
| "py_add (ListV a) (ListV b) = Inr (ListV (a @ b))"
| "py_add (TupleV a) (TupleV b) = Inr (TupleV (a @ b))"
| "py_add a b = Inl TypeError"

text \<open>
  \<^verbatim>\<open>title.encode('ascii', 'ignore')\<close> drops every code point above 127, and
  \<^verbatim>\<open>title.replace(u'\u200B', u'')\<close> drops every zero width space (code point 8203).
  Both are methods of text only: any other value has no such attribute.
\<close>

definition encode_ascii_ignore :: "val \<Rightarrow> error + val" where
  "encode_ascii_ignore v =
     (case v of Str s \<Rightarrow> Inr (Str (filter (\<lambda>c. c < 128) s)) | _ \<Rightarrow> Inl AttributeError)"

definition replace_zero_width :: "val \<Rightarrow> error + val" where
  "replace_zero_width v =
     (case v of Str s \<Rightarrow> Inr (Str (filter (\<lambda>c. c \<noteq> 8203) s)) | _ \<Rightarrow> Inl AttributeError)"

text \<open>Text written with ASCII characters only.\<close>

definition u :: "string \<Rightarrow> unicode" where
  "u s = map of_char s"

subsection \<open>Byte strings\<close>

definition lower_char :: "char \<Rightarrow> char" where
  "lower_char c =
     (let n = (of_char c :: nat) in if 65 \<le> n \<and> n \<le> 90 then char_of (n + 32) else c)"

definition lower :: "string \<Rightarrow> string" where
  "lower s = map lower_char s"

text \<open>\<^verbatim>\<open>s.startswith(p)\<close> and \<^verbatim>\<open>p in s\<close>.\<close>

definition startswith :: "string \<Rightarrow> string \<Rightarrow> bool" where
  "startswith s p = (take (length p) s = p)"

fun contains :: "string \<Rightarrow> string \<Rightarrow> bool" where
  "contains [] p = (p = [])"
| "contains (c # cs) p = (startswith (c # cs) p \<or> contains cs p)"

subsection \<open>What feedparser returns\<close>

text \<open>
  An enclosure is a dictionary of the attributes of the XML element; the plugin reads
  \<^verbatim>\<open>href\<close>, \<^verbatim>\<open>length\<close> and \<^verbatim>\<open>type\<close>, each of which may be missing.
\<close>

record enclosure =
  enc_href :: "unicode option"
  enc_length :: "unicode option"
  enc_type :: "unicode option"

definition enclosure_val :: "enclosure \<Rightarrow> val" where
  "enclosure_val enc = DictV
     ((case enc_href enc of None \<Rightarrow> [] | Some h \<Rightarrow> [(''href'', Str h)]) @
      (case enc_length enc of None \<Rightarrow> [] | Some l \<Rightarrow> [(''length'', Str l)]) @
      (case enc_type enc of None \<Rightarrow> [] | Some t \<Rightarrow> [(''type'', Str t)]))"

text \<open>
  A feed entry is a feedparser dictionary. \<open>efields\<close> holds its keys other than the two
  that have a type of their own: \<open>published_parsed\<close> (missing, None when the date did not
  parse, or a time tuple) and \<open>enclosures\<close> (missing, or a list). The plugin also
  assigns the attribute \<^verbatim>\<open>entry.title\<close>: on a dictionary subclass this stores an
  instance attribute and leaves the key \<^verbatim>\<open>entry['title']\<close> as it was; \<open>title_attr\<close> is
  that attribute, unset in what the parser returns.
\<close>

record rss_entry =
  efields :: "(string \<times> val) list"
  published_parsed :: "int list option option"
  enclosures :: "enclosure list option"
  title_attr :: "val option"

text \<open>\<^verbatim>\<open>entry.get(k)\<close>, None when the key is missing; \<^verbatim>\<open>k in entry\<close> is \<open>eget e k \<noteq> None\<close>.\<close>

definition eget :: "rss_entry \<Rightarrow> string \<Rightarrow> val option" where
  "eget e k =
     (if k = ''enclosures'' then map_option (\<lambda>encs. ListV (map enclosure_val encs)) (enclosures e)
      else if k = ''published_parsed'' then
        map_option (\<lambda>t. case t of None \<Rightarrow> NoneV | Some ts \<Rightarrow> TupleV (map IntV ts)) (published_parsed e)
      else map_of (efields e) k)"

text \<open>
  \<^verbatim>\<open>getattr(entry, k)\<close>: the instance attribute when it was assigned, otherwise the key
  (feedparser's \<^verbatim>\<open>__getattr__\<close>), and AttributeError, here None, when both are missing.
  Field names are taken not to be names of dictionary methods.
\<close>

definition egetattr :: "rss_entry \<Rightarrow> string \<Rightarrow> val option" where
  "egetattr e k =
     (if k = ''title'' then (case title_attr e of Some v \<Rightarrow> Some v | None \<Rightarrow> eget e k)
      else eget e k)"

text \<open>\<^verbatim>\<open>entry.get('enclosures', [])\<close>.\<close>

definition get_enclosures :: "rss_entry \<Rightarrow> enclosure list" where
  "get_enclosures e = (case enclosures e of None \<Rightarrow> [] | Some encs \<Rightarrow> encs)"

datatype bozo_exception =
    NonXMLContentType
  | CharacterEncodingOverride
  | UnicodeEncodeError
  | SAXParseException
  | BadStatusLine
  | IOError_exception
  | OtherException

text \<open>
  The parsed document: \<open>bozo\<close> is None when the key is missing from the result,
  \<open>bozo_exception\<close> is None when no exception was recorded.
\<close>

record rss =
  bozo :: "bool option"
  bozo_exception :: "bozo_exception option"
  entries :: "rss_entry list"

subsection \<open>Configuration\<close>

datatype link_cfg = LinkField string | LinkList "string list"

datatype other_field = FieldName string | FieldMap "(string \<times> string) list"

text \<open>The configuration as the user wrote it: a dictionary, each key of which may be missing.\<close>

record raw_config =
  raw_url :: string
  raw_username :: "unicode option"
  raw_password :: "unicode option"
  raw_title :: "string option"
  raw_link :: "link_cfg option"
  raw_other_fields :: "other_field list option"
  raw_silent :: "bool option"
  raw_ascii :: "bool option"
  raw_filename :: "bool option"
  raw_group_links :: "bool option"
  raw_all_entries :: "bool option"

datatype raw = Url string | Advanced raw_config

text \<open>
  The configuration after \<^verbatim>\<open>build_config\<close>: \<^verbatim>\<open>link\<close>, \<^verbatim>\<open>group_links\<close> and
  \<^verbatim>\<open>all_entries\<close> are always there, and \<^verbatim>\<open>other_fields\<close>, when given and not empty, is
  a list of dictionaries of one pair each, here a list of pairs.
\<close>

record config =
  url :: string
  username :: "unicode option"
  password :: "unicode option"
  title :: "string option"
  link :: link_cfg
  other_fields :: "(string \<times> string) list option"
  silent :: "bool option"
  ascii :: "bool option"
  filename :: "bool option"
  group_links :: bool
  all_entries :: bool

definition replace_colon :: "string \<Rightarrow> string" where
  "replace_colon s = map (\<lambda>c. if c = CHR '':'' then CHR ''_'' else c) s"

text \<open>
  One item of \<^verbatim>\<open>other_fields\<close>: a name stands for itself, a dictionary gives its first
  pair (\<^verbatim>\<open>item.items()[0]\<close>, IndexError on an empty dictionary).
\<close>

fun other_field_pair :: "other_field \<Rightarrow> error + (string \<times> string)" where
  "other_field_pair (FieldName s) = Inr (lower (replace_colon s), lower s)"
| "other_field_pair (FieldMap []) = Inl IndexError"
| "other_field_pair (FieldMap ((k, v) # kvs)) = Inr (lower (replace_colon k), lower v)"

fun other_field_pairs :: "other_field list \<Rightarrow> error + (string \<times> string) list" where
  "other_field_pairs [] = Inr []"
| "other_field_pairs (item # items) =
     (case other_field_pair item of
        Inl err \<Rightarrow> Inl err
      | Inr kv \<Rightarrow> (case other_field_pairs items of Inl err \<Rightarrow> Inl err | Inr kvs \<Rightarrow> Inr (kv # kvs)))"

definition empty_raw_config :: "string \<Rightarrow> raw_config" where
  "empty_raw_config s =
     \<lparr>raw_url = s, raw_username = None, raw_password = None, raw_title = None, raw_link = None,
      raw_other_fields = None, raw_silent = None, raw_ascii = None, raw_filename = None,
      raw_group_links = None, raw_all_entries = None\<rparr>"

definition build_config :: "raw \<Rightarrow> error + config" where
  "build_config r =
     (let c = (case r of Url s \<Rightarrow> empty_raw_config s | Advanced d \<Rightarrow> d);
          lnk = (case raw_link c of None \<Rightarrow> LinkField ''auto'' | Some l \<Rightarrow> l);
          others = (case raw_other_fields c of
                      None \<Rightarrow> Inr None
                    | Some [] \<Rightarrow> Inr (Some [])
                    | Some items \<Rightarrow> map_sum id Some (other_field_pairs items))
      in case others of
           Inl err \<Rightarrow> Inl err
         | Inr ofs \<Rightarrow> Inr
             \<lparr>url = raw_url c, username = raw_username c, password = raw_password c,
              title = raw_title c, link = lnk, other_fields = ofs, silent = raw_silent c,
              ascii = raw_ascii c, filename = raw_filename c,
              group_links = get_default (raw_group_links c) False,
              all_entries = get_default (raw_all_entries c) False\<rparr>)"

subsection \<open>The task and the libraries\<close>

text \<open>
  Modelled from the spec: \<^verbatim>\<open>flexget.entry.Entry\<close> is not among the sources. The spec's
  OutputItem is a record of named fields created fresh for each item; the plugin uses it
  as a dictionary (\<^verbatim>\<open>e['url']\<close>, \<^verbatim>\<open>e.get\<close>, \<^verbatim>\<open>e.setdefault\<close>), so an item is a map from
  field names to values with the behaviour of a Python dictionary.
\<close>

type_synonym item = "string \<rightharpoonup> val"

datatype outcome = Raised error | ReturnedNone | Returned "item list"

datatype level = TRACE | DEBUG | VERBOSE | INFO | WARNING | ERROR | CRITICAL | EXCEPTION

text \<open>One constructor for each message the plugin logs, named after its text.\<close>

datatype msg =
    Requesting_task
  | Sending_etag
  | Invalid_date_was_stored
  | Sending_last_modified
  | Hasnt_changed_since_last_run
  | Etag_saved
  | Last_modified_saved
  | No_data_recieved
  | Ignoring_NonXMLContentType
  | Ignoring_CharacterEncodingOverride
  | UnicodeEncodeError_but_entries
  | Bozo_traceback
  | Invalid_XML_received
  | Invalid_RSS_received
  | Rss_dump
  | Bozo_exception_on_task
  | Bozo_bit_missing
  | Encoding
  | Skipping_entry_without_title
  | Not_processing_entries_from_last_run
  | Cannot_grab_non_text_field string
  | Not_grabbing_blank_field string
  | Field_set_to string
  | Failed_to_decode_entry string
  | Adding_entries_from_enclosures nat
  | Enclosure_does_not_have_URL
  | Filename_from_enclosure
  | Does_not_have_link_or_enclosure
  | Saving_location
  | Skipped_entries nat
  | Received_empty_page
  | Received_content_is_HTML
  | Looks_like_login_page
  | Looks_like_error_page
  | Saved_invalid_content

text \<open>
  Everything a run can change. \<open>simple_persistence\<close> is the task's key/value store,
  \<open>persisted\<close> the assignments made to it, in order; \<open>received\<close> lists the files written
  by \<^verbatim>\<open>process_invalid_content\<close> (extension and data); \<open>new_entries\<close> and \<open>ignored\<close> are
  the local variables \<^verbatim>\<open>entries\<close> and \<^verbatim>\<open>ignored\<close> of \<^verbatim>\<open>on_task_input\<close>.
\<close>

record state =
  simple_persistence :: "string \<rightharpoonup> val"
  persisted :: "(string \<times> val) list"
  no_entries_ok :: bool
  log :: "(level \<times> msg) list"
  received :: "(string \<times> string) list"
  new_entries :: "item list"
  ignored :: nat

record response =
  status_code :: int
  headers :: "(string \<times> unicode) list"
  content :: string

text \<open>
  What the plugin reads and calls but does not define: the task's flags, the hash of the
  URL that prefixes the persistence keys, \<^verbatim>\<open>task.requests.get\<close> (None: RequestException),
  \<^verbatim>\<open>open(url).read()\<close> (None: IOError), \<^verbatim>\<open>feedparser.parse\<close> (None: LookupError),
  \<^verbatim>\<open>decode_html\<close> (None: UnicodeDecodeError),
  \<^verbatim>\<open>posixpath.basename(urlparse.urlsplit(url).path)\<close> (None: ValueError from urlsplit) and
  \<^verbatim>\<open>int\<close> on text (None: any exception).
\<close>

record env =
  config_modified :: bool
  nocache :: bool
  debug :: bool
  url_hash :: "string \<Rightarrow> string"
  requests_get :: "string \<Rightarrow> (string \<times> val) list \<Rightarrow> (unicode \<times> unicode) option \<Rightarrow> response option"
  open_read :: "string \<Rightarrow> string option"
  parse :: "string \<Rightarrow> rss option"
  decode_html :: "unicode \<Rightarrow> unicode option"
  basename_of_url :: "unicode \<Rightarrow> unicode option"
  py_int :: "unicode \<Rightarrow> int option"

definition logm :: "level \<Rightarrow> msg \<Rightarrow> state \<Rightarrow> state" where
  "logm l m st = st\<lparr>log := log st @ [(l, m)]\<rparr>"

text \<open>\<^verbatim>\<open>task.simple_persistence[k] = v\<close>.\<close>

definition persist :: "string \<Rightarrow> val \<Rightarrow> state \<Rightarrow> state" where
  "persist k v st =
     st\<lparr>simple_persistence := (simple_persistence st)(k \<mapsto> v), persisted := persisted st @ [(k, v)]\<rparr>"

definition etag_key :: "env \<Rightarrow> config \<Rightarrow> string" where
  "etag_key env c = url_hash env (url c) @ ''_etag''"

definition modified_key :: "env \<Rightarrow> config \<Rightarrow> string" where
  "modified_key env c = url_hash env (url c) @ ''_modified''"

definition last_entry_key :: "env \<Rightarrow> config \<Rightarrow> string" where
  "last_entry_key env c = url_hash env (url c) @ ''_last_entry''"

subsection \<open>process_invalid_content\<close>

text \<open>The directory and the file are taken to be writable.\<close>

definition process_invalid_content :: "string option \<Rightarrow> state \<Rightarrow> state" where
  "process_invalid_content data st =
     (case data of
        None \<Rightarrow> logm CRITICAL Received_empty_page st
      | Some d \<Rightarrow>
          (let html = contains (lower d) ''<html>'';
               st1 = (if html then logm CRITICAL Received_content_is_HTML st else st);
               ext = (if html then ''html'' else ''xml'');
               st2 = (if contains (lower d) ''login'' \<or> contains (lower d) ''username''
                      then logm CRITICAL Looks_like_login_page st1 else st1);
               st3 = (if contains (lower d) ''error''
                      then logm CRITICAL Looks_like_error_page st2 else st2);
               st4 = st3\<lparr>received := received st3 @ [(ext, d)]\<rparr>
           in logm CRITICAL Saved_invalid_content st4))"

subsection \<open>on_task_input: request headers, fetch, cache headers\<close>

text \<open>Lines 183 to 194: the conditional request headers, from the stored etag and date.\<close>

definition request_headers :: "env \<Rightarrow> config \<Rightarrow> bool \<Rightarrow> state \<Rightarrow> (string \<times> val) list \<times> state" where
  "request_headers env c all_entries_now st =
     (if all_entries_now then ([], st)
      else
        (let etag = simple_persistence st (etag_key env c);
             (h1, st1) = (if truthy_opt etag
                          then ([(''If-None-Match'', get_default etag NoneV)], logm DEBUG Sending_etag st)
                          else ([], st));
             modified = simple_persistence st1 (modified_key env c)
         in if truthy_opt modified then
              (if \<not> is_basestring (get_default modified NoneV)
               then (h1, logm DEBUG Invalid_date_was_stored st1)
               else (h1 @ [(''If-Modified-Since'', get_default modified NoneV)],
                     logm DEBUG Sending_last_modified st1))
            else (h1, st1)))"

text \<open>Lines 227 to 236: the etag and the date of the response are stored at once.\<close>

definition update_cache :: "env \<Rightarrow> config \<Rightarrow> response \<Rightarrow> state \<Rightarrow> state" where
  "update_cache env c r st =
     (if \<not> all_entries c then
        (let st1 = (case map_of (headers r) ''etag'' of
                      None \<Rightarrow> st
                    | Some etag \<Rightarrow>
                        if etag \<noteq> [] then logm DEBUG Etag_saved (persist (etag_key env c) (Str etag) st)
                        else st)
         in case map_of (headers r) ''last-modified'' of
              None \<Rightarrow> st1
            | Some modified \<Rightarrow>
                if modified \<noteq> []
                then logm DEBUG Last_modified_saved (persist (modified_key env c) (Str modified) st1)
                else st1)
      else st)"

text \<open>
  Lines 196 to 239: the content, from the network or from a file. The left summand is a
  run that is over: a 304 returns the empty list, every other status but 200 raises.
\<close>

definition get_content :: "env \<Rightarrow> config \<Rightarrow> (string \<times> val) list \<Rightarrow> state \<Rightarrow> (outcome + string) \<times> state" where
  "get_content env c hdrs st =
     (if startswith (url c) ''http'' \<or> startswith (url c) ''https'' \<or>
         startswith (url c) ''ftp'' \<or> startswith (url c) ''file''
      then
        (let auth = (case username c of
                       None \<Rightarrow> None
                     | Some n \<Rightarrow> (case password c of None \<Rightarrow> None | Some p \<Rightarrow> Some (n, p)))
         in case requests_get env (url c) hdrs auth of
              None \<Rightarrow> (Inl (Raised PluginError), st)
            | Some r \<Rightarrow>
                if status_code r = 304 then
                  (Inl (Returned []), (logm VERBOSE Hasnt_changed_since_last_run st)\<lparr>no_entries_ok := True\<rparr>)
                else if status_code r = 401 then
                  (case map_of (headers r) ''www-authenticate'' of
                     None \<Rightarrow> (Inl (Raised KeyError), st)
                   | Some a \<Rightarrow> (Inl (Raised PluginError), st))
                else if status_code r = 404 then (Inl (Raised PluginError), st)
                else if status_code r = 500 then (Inl (Raised PluginError), st)
                else if status_code r \<noteq> 200 then (Inl (Raised PluginError), st)
                else (Inr (content r), update_cache env c r st))
      else
        (case open_read env (url c) of
           None \<Rightarrow> (Inl (Raised IOError), st)
         | Some data \<Rightarrow> (Inr data, st)))"

subsection \<open>on_task_input: the bozo exception\<close>

text \<open>
  Lines 249 to 294. The result is the flag \<^verbatim>\<open>ignore\<close>, or a run that is over. The last
  branch logs that the error is ignored and leaves \<^verbatim>\<open>ignore\<close> as it is.
\<close>

definition check_bozo :: "env \<Rightarrow> config \<Rightarrow> string \<Rightarrow> rss \<Rightarrow> state \<Rightarrow> (outcome + bool) \<times> state" where
  "check_bozo env c data r st =
     (case bozo_exception r of
        None \<Rightarrow> (Inr False, st)
      | Some ex \<Rightarrow>
          (case ex of
             NonXMLContentType \<Rightarrow> (Inr True, logm DEBUG Ignoring_NonXMLContentType st)
           | CharacterEncodingOverride \<Rightarrow> (Inr True, logm DEBUG Ignoring_CharacterEncodingOverride st)
           | UnicodeEncodeError \<Rightarrow>
               if entries r \<noteq> [] then (Inr True, logm INFO UnicodeEncodeError_but_entries st)
               else (Inr False, st)
           | SAXParseException \<Rightarrow>
               if entries r = [] then
                 (let st1 = process_invalid_content (Some data) st;
                      st2 = (if debug env then logm EXCEPTION Bozo_traceback st1 else st1)
                  in (Inl (Raised PluginError), st2))
               else
                 (Inr True,
                  logm (if \<not> get_default (silent c) False then INFO else DEBUG) Invalid_XML_received st)
           | BadStatusLine \<Rightarrow> (Inl (Raised BozoBadStatusLine), st)
           | IOError_exception \<Rightarrow> (Inl (Raised BozoIOError), st)
           | OtherException \<Rightarrow>
               if entries r = [] then
                 (Inl (Raised PluginError), process_invalid_content (Some data) st)
               else
                 (Inr False,
                  logm (if \<not> get_default (silent c) False then INFO else DEBUG) Invalid_RSS_received st)))"

text \<open>Lines 296 to 302: a bozo bit that was not ignored ends the run with a bare return.\<close>

definition bozo_gate :: "rss \<Rightarrow> bool \<Rightarrow> state \<Rightarrow> (outcome + unit) \<times> state" where
  "bozo_gate r ignore st =
     (case bozo r of
        Some b \<Rightarrow>
          if b \<and> \<not> ignore
          then (Inl ReturnedNone, logm ERROR Bozo_exception_on_task (logm ERROR Rss_dump st))
          else (Inr (), st)
      | None \<Rightarrow> (Inr (), logm WARNING Bozo_bit_missing st))"

subsection \<open>on_task_input: the order of the entries\<close>

text \<open>Python compares tuples lexicographically; None is below every tuple.\<close>

fun time_less :: "int list \<Rightarrow> int list \<Rightarrow> bool" where
  "time_less [] [] = False"
| "time_less [] (y # ys) = True"
| "time_less (x # xs) [] = False"
| "time_less (x # xs) (y # ys) = (x < y \<or> (x = y \<and> time_less xs ys))"

fun key_less :: "int list option \<Rightarrow> int list option \<Rightarrow> bool" where
  "key_less None None = False"
| "key_less None (Some b) = True"
| "key_less (Some a) None = False"
| "key_less (Some a) (Some b) = time_less a b"

text \<open>The keys \<^verbatim>\<open>x['published_parsed']\<close> of the sort: a missing key raises KeyError.\<close>

fun sort_keys :: "rss_entry list \<Rightarrow> error + (int list option \<times> rss_entry) list" where
  "sort_keys [] = Inr []"
| "sort_keys (e # es) =
     (case published_parsed e of
        None \<Rightarrow> Inl KeyError
      | Some k \<Rightarrow> (case sort_keys es of Inl err \<Rightarrow> Inl err | Inr kes \<Rightarrow> Inr ((k, e) # kes)))"

text \<open>
  \<^verbatim>\<open>sort(key=..., reverse=True)\<close> is stable: descending keys, entries of equal keys in
  their original order.
\<close>

fun insert_desc :: "int list option \<times> 'a \<Rightarrow> (int list option \<times> 'a) list \<Rightarrow> (int list option \<times> 'a) list" where
  "insert_desc x [] = [x]"
| "insert_desc x (y # ys) = (if key_less (fst x) (fst y) then y # insert_desc x ys else x # y # ys)"

definition sort_desc :: "(int list option \<times> 'a) list \<Rightarrow> (int list option \<times> 'a) list" where
  "sort_desc xs = foldr insert_desc xs []"

text \<open>Lines 307 to 312, the entries as the loop will see them.\<close>

definition sort_entries :: "bool \<Rightarrow> rss_entry list \<Rightarrow> error + rss_entry list" where
  "sort_entries all_entries_now es =
     (if all_entries_now then Inr es
      else
        (case es of
           [] \<Rightarrow> Inr es
         | first # rest \<Rightarrow>
             if truthy_opt (eget first ''published_parsed'') then
               (case published_parsed (last es) of
                  None \<Rightarrow> Inl KeyError
                | Some t_last \<Rightarrow>
                    if key_less (get_default (published_parsed first) None) t_last then
                      (case sort_keys es of
                         Inl err \<Rightarrow> Inl err
                       | Inr kes \<Rightarrow> Inr (map snd (sort_desc kes)))
                    else Inr es)
             else Inr es))"

text \<open>Lines 306 and 313: the stored watermark, None when there is none.\<close>

definition get_last_entry_id :: "env \<Rightarrow> config \<Rightarrow> bool \<Rightarrow> state \<Rightarrow> val" where
  "get_last_entry_id env c all_entries_now st =
     (if all_entries_now then Str []
      else get_default (simple_persistence st (last_entry_key env c)) NoneV)"

subsection \<open>add_enclosure_info\<close>

text \<open>
  \<^verbatim>\<open>entry['url'] = enclosure['href']\<close> raises KeyError on an enclosure without href;
  \<^verbatim>\<open>int(enclosure['length'])\<close> is guarded by a bare \<^verbatim>\<open>except\<close> that stores 0.
\<close>

definition add_enclosure_info :: "env \<Rightarrow> item \<Rightarrow> enclosure \<Rightarrow> bool \<Rightarrow> bool \<Rightarrow> state \<Rightarrow> (error + item) \<times> state" where
  "add_enclosure_info env entry enc filename_wanted multiple st =
     (case enc_href enc of
        None \<Rightarrow> (Inl KeyError, st)
      | Some h \<Rightarrow>
          (let e1 = entry(''url'' \<mapsto> Str h);
               e2 = (case enc_length enc of
                       None \<Rightarrow> e1
                     | Some l \<Rightarrow> e1(''size'' \<mapsto> IntV (get_default (py_int env l) 0)));
               e3 = (case enc_type enc of None \<Rightarrow> e2 | Some t \<Rightarrow> e2(''type'' \<mapsto> Str t))
           in case basename_of_url env h of
                None \<Rightarrow> (Inl ValueError, st)
              | Some basename \<Rightarrow>
                  if (truthy_opt (e3 ''size'') \<or> (multiple \<and> basename \<noteq> [])) \<and> filename_wanted
                  then (Inr (e3(''filename'' \<mapsto> Str basename)), logm TRACE Filename_from_enclosure st)
                  else (Inr e3, st)))"

subsection \<open>on_task_input: the helper add_entry\<close>

text \<open>
  The dictionary \<^verbatim>\<open>fields\<close> of lines 349 to 355: four fixed pairs, updated with each
  dictionary of \<^verbatim>\<open>other_fields\<close>. A Python 2 dictionary iterates in the order of its hash
  table; the model iterates in the order of insertion.
\<close>

fun dict_set :: "string \<Rightarrow> 'v \<Rightarrow> (string \<times> 'v) list \<Rightarrow> (string \<times> 'v) list" where
  "dict_set k v [] = [(k, v)]"
| "dict_set k v ((k', v') # kvs) = (if k = k' then (k, v) # kvs else (k', v') # dict_set k v kvs)"

definition fixed_fields :: "(string \<times> string) list" where
  "fixed_fields =
     [(''guid'', ''guid''), (''author'', ''author''), (''description'', ''description''),
      (''infohash'', ''torrent_info_hash'')]"

definition grab_fields_of :: "config \<Rightarrow> (string \<times> string) list" where
  "grab_fields_of c = foldl (\<lambda>d (k, v). dict_set k v d) fixed_fields (get_default (other_fields c) [])"

text \<open>
  Line 369, \<^verbatim>\<open>config['other_fields'].remove(rss_field)\<close>: the key is missing (KeyError), or
  its value is the empty list or the list of dictionaries that \<^verbatim>\<open>build_config\<close> made. No
  dictionary is equal to the string \<^verbatim>\<open>rss_field\<close>, so \<^verbatim>\<open>list.remove\<close> finds nothing to
  remove and raises ValueError: the statement always raises, and the \<^verbatim>\<open>continue\<close> that
  follows it is never reached.
\<close>

definition remove_other_field :: "config \<Rightarrow> string \<Rightarrow> error" where
  "remove_other_field c rss_field = (case other_fields c of None \<Rightarrow> KeyError | Some dicts \<Rightarrow> ValueError)"

text \<open>
  Lines 363 to 380, the loop over \<^verbatim>\<open>fields\<close>. The test reads the attribute
  (\<^verbatim>\<open>getattr\<close>), the copy reads the key (\<^verbatim>\<open>entry[rss_field]\<close>); \<^verbatim>\<open>decode_html\<close> of a value
  that is not text raises TypeError, which the \<^verbatim>\<open>except UnicodeDecodeError\<close> does not catch.
  The debug message of line 378 is behind \<^verbatim>\<open>rss_field in config.get('other_fields', [])\<close>,
  a string looked for in a list of dictionaries, which is never true.
\<close>

fun grab_fields :: "env \<Rightarrow> config \<Rightarrow> rss_entry \<Rightarrow> (string \<times> string) list \<Rightarrow> item \<Rightarrow> state \<Rightarrow> (error + item) \<times> state" where
  "grab_fields env c entry [] ea st = (Inr ea, st)"
| "grab_fields env c entry ((rss_field, flexget_field) # fs) ea st =
     (case eget entry rss_field of
        None \<Rightarrow> grab_fields env c entry fs ea st
      | Some raw_value \<Rightarrow>
          (case egetattr entry rss_field of
             None \<Rightarrow> (Inl AttributeError, st)
           | Some v \<Rightarrow>
               if \<not> is_basestring v then
                 (Inl (remove_other_field c rss_field), logm ERROR (Cannot_grab_non_text_field rss_field) st)
               else if \<not> truthy v then
                 grab_fields env c entry fs ea (logm DEBUG (Not_grabbing_blank_field rss_field) st)
               else
                 (case raw_value of
                    Str s \<Rightarrow>
                      (case decode_html env s of
                         None \<Rightarrow>
                           grab_fields env c entry fs ea (logm WARNING (Failed_to_decode_entry rss_field) st)
                       | Some d \<Rightarrow> grab_fields env c entry fs (ea(flexget_field \<mapsto> Str d)) st)
                  | _ \<Rightarrow> (Inl TypeError, st))))"

text \<open>
  Lines 360 to 388. \<^verbatim>\<open>entry.title\<close> is the attribute the loop assigned; the publication
  date is a valid time tuple, of which \<^verbatim>\<open>datetime\<close> takes the first six numbers.
\<close>

definition add_entry :: "env \<Rightarrow> config \<Rightarrow> rss_entry \<Rightarrow> item \<Rightarrow> state \<Rightarrow> error option \<times> state" where
  "add_entry env c entry ea st =
     (case egetattr entry ''title'' of
        None \<Rightarrow> (Some AttributeError, st)
      | Some t \<Rightarrow>
          (case grab_fields env c entry (grab_fields_of c) (ea(''title'' \<mapsto> t)) st of
             (Inl err, st1) \<Rightarrow> (Some err, st1)
           | (Inr ea1, st1) \<Rightarrow>
               (let ea2 = (if truthy_opt (egetattr entry ''published_parsed'')
                           then ea1(''rss_pubdate'' \<mapsto>
                                  TupleV (map IntV (take 6 (get_default (get_default (published_parsed entry) None) []))))
                           else ea1);
                    ea3 = (case username c of
                             None \<Rightarrow> ea2
                           | Some n \<Rightarrow>
                               (case password c of
                                  None \<Rightarrow> ea2
                                | Some p \<Rightarrow> ea2(''basic_auth_username'' \<mapsto> Str n, ''basic_auth_password'' \<mapsto> Str p)))
                in (None, st1\<lparr>new_entries := new_entries st1 @ [ea3]\<rparr>))))"

subsection \<open>on_task_input: one entry of the feed\<close>

text \<open>Lines 396 to 403: an entry for each enclosure that has the key href.\<close>

fun fan_out :: "env \<Rightarrow> config \<Rightarrow> rss_entry \<Rightarrow> enclosure list \<Rightarrow> state \<Rightarrow> error option \<times> state" where
  "fan_out env c entry [] st = (None, st)"
| "fan_out env c entry (enc # encs) st =
     (if enc_href enc = None then fan_out env c entry encs (logm DEBUG Enclosure_does_not_have_URL st)
      else
        (case add_enclosure_info env Map.empty enc (get_default (filename c) True) True st of
           (Inl err, st1) \<Rightarrow> (Some err, st1)
         | (Inr ee, st1) \<Rightarrow>
             (case add_entry env c entry ee st1 of
                (Some err, st2) \<Rightarrow> (Some err, st2)
              | (None, st2) \<Rightarrow> fan_out env c entry encs st2)))"

text \<open>Lines 418 to 421: the first of the fields that has a value.\<close>

fun first_url :: "rss_entry \<Rightarrow> string list \<Rightarrow> item \<Rightarrow> item" where
  "first_url entry [] e = e"
| "first_url entry (f # fs) e =
     (if truthy_opt (eget entry f) then e(''url'' \<mapsto> get_default (eget entry f) NoneV)
      else first_url entry fs e)"

text \<open>Lines 427 to 431: a list of link fields.\<close>

fun link_list :: "rss_entry \<Rightarrow> string list \<Rightarrow> item \<Rightarrow> error + item" where
  "link_list entry [] e = Inr e"
| "link_list entry (f # fs) e =
     (if truthy_opt (eget entry f) then
        (let v = get_default (eget entry f) NoneV;
             e1 = (case e ''url'' of None \<Rightarrow> e(''url'' \<mapsto> v) | Some w \<Rightarrow> e);
             e2 = (case e1 ''urls'' of None \<Rightarrow> e1(''urls'' \<mapsto> ListV []) | Some w \<Rightarrow> e1)
         in case e2 ''urls'' of
              Some (ListV l) \<Rightarrow>
                link_list entry fs (if v \<notin> set l then e2(''urls'' \<mapsto> ListV (l @ [v])) else e2)
            | _ \<Rightarrow> Inl TypeError)
      else link_list entry fs e)"

text \<open>Lines 410 to 431.\<close>

definition resolve_link :: "env \<Rightarrow> config \<Rightarrow> rss_entry \<Rightarrow> state \<Rightarrow> (error + item) \<times> state" where
  "resolve_link env c entry st =
     (case link c of
        LinkField f \<Rightarrow>
          if f = ''auto'' then
            (if length (get_enclosures entry) = 1 \<and>
                truthy_opt (map_option Str (enc_href (hd (get_enclosures entry))))
             then add_enclosure_info env Map.empty (hd (get_enclosures entry))
                    (get_default (filename c) True) False st
             else (Inr (first_url entry [''link'', ''guid''] Map.empty), st))
          else
            (if truthy_opt (eget entry f)
             then (Inr [''url'' \<mapsto> get_default (eget entry f) NoneV], st)
             else (Inr Map.empty, st))
      | LinkList fs \<Rightarrow> (link_list entry fs Map.empty, st))"

text \<open>
  Lines 435 and 436. The argument \<^verbatim>\<open>[e['url']]\<close> of \<^verbatim>\<open>setdefault\<close> is evaluated before the
  call, whether or not the key urls is there: KeyError without a url. \<^verbatim>\<open>enc.href\<close> is an
  attribute read: AttributeError on an enclosure without href.
\<close>

fun enclosure_hrefs :: "enclosure list \<Rightarrow> val list \<Rightarrow> error + val list" where
  "enclosure_hrefs [] l = Inr []"
| "enclosure_hrefs (enc # encs) l =
     (if (case enc_href enc of None \<Rightarrow> NoneV | Some h \<Rightarrow> Str h) \<notin> set l then
        (case enc_href enc of
           None \<Rightarrow> Inl AttributeError
         | Some h \<Rightarrow>
             (case enclosure_hrefs encs l of Inl err \<Rightarrow> Inl err | Inr hs \<Rightarrow> Inr (Str h # hs)))
      else enclosure_hrefs encs l)"

definition group_urls :: "rss_entry \<Rightarrow> item \<Rightarrow> error + item" where
  "group_urls entry e =
     (case e ''url'' of
        None \<Rightarrow> Inl KeyError
      | Some url_value \<Rightarrow>
          (let e1 = (case e ''urls'' of None \<Rightarrow> e(''urls'' \<mapsto> ListV [url_value]) | Some w \<Rightarrow> e)
           in case e1 ''urls'' of
                Some (ListV l) \<Rightarrow>
                  (case enclosure_hrefs (get_enclosures entry) l of
                     Inl err \<Rightarrow> Inl err
                   | Inr hs \<Rightarrow> Inr (e1(''urls'' \<mapsto> ListV (l @ hs))))
              | _ \<Rightarrow> Inl AttributeError))"

datatype ctl = Continue | Break | Raise error

text \<open>Lines 390 to 443: the entries made from one feed entry whose title is set.\<close>

definition create_from_entry :: "env \<Rightarrow> config \<Rightarrow> rss_entry \<Rightarrow> state \<Rightarrow> ctl \<times> state" where
  "create_from_entry env c entry st =
     (if length (get_enclosures entry) > 1 \<and> \<not> group_links c then
        (case fan_out env c entry (get_enclosures entry)
                (logm DEBUG (Adding_entries_from_enclosures (length (get_enclosures entry))) st) of
           (Some err, st1) \<Rightarrow> (Raise err, st1)
         | (None, st1) \<Rightarrow> (Continue, st1))
      else
        (case resolve_link env c entry st of
           (Inl err, st1) \<Rightarrow> (Raise err, st1)
         | (Inr e, st1) \<Rightarrow>
             (case (if group_links c then group_urls entry e else Inr e) of
                Inl err \<Rightarrow> (Raise err, st1)
              | Inr e1 \<Rightarrow>
                  if \<not> truthy_opt (e1 ''url'') then
                    (Continue, (logm DEBUG Does_not_have_link_or_enclosure st1)\<lparr>ignored := ignored st1 + 1\<rparr>)
                  else
                    (case add_entry env c entry e1 st1 of
                       (Some err, st2) \<Rightarrow> (Raise err, st2)
                     | (None, st2) \<Rightarrow> (Continue, st2)))))"

text \<open>
  Lines 323 to 346: the title, the comparison with the watermark, the clean-up of the
  title. The comparison reads the title as the feed has it; the clean-up comes after it
  and assigns the attribute again.
\<close>

definition process_entry :: "env \<Rightarrow> config \<Rightarrow> val \<Rightarrow> rss_entry \<Rightarrow> state \<Rightarrow> ctl \<times> rss_entry \<times> state" where
  "process_entry env c last_entry_id entry st =
     (let title_field = get_default (title c) ''title'' in
      case eget entry title_field of
        None \<Rightarrow> (Continue, entry, (logm DEBUG Skipping_entry_without_title st)\<lparr>ignored := ignored st + 1\<rparr>)
      | Some t \<Rightarrow>
          if \<not> truthy t then
            (Continue, entry, (logm DEBUG Skipping_entry_without_title st)\<lparr>ignored := ignored st + 1\<rparr>)
          else
            (let entry1 = entry\<lparr>title_attr := Some t\<rparr> in
             case py_add t (get_default (eget entry1 ''guid'') (Str [])) of
               Inl err \<Rightarrow> (Raise err, entry1, st)
             | Inr fingerprint \<Rightarrow>
                 if last_entry_id = fingerprint then
                   (Break, entry1,
                    (logm VERBOSE Not_processing_entries_from_last_run st)\<lparr>no_entries_ok := True\<rparr>)
                 else
                   (case (if get_default (ascii c) False then encode_ascii_ignore t else Inr t) of
                      Inl err \<Rightarrow> (Raise err, entry1, st)
                    | Inr t1 \<Rightarrow>
                        (case replace_zero_width t1 of
                           Inl err \<Rightarrow> (Raise err, entry1\<lparr>title_attr := Some t1\<rparr>, st)
                         | Inr t2 \<Rightarrow>
                             (let entry2 = entry1\<lparr>title_attr := Some t2\<rparr> in
                              case create_from_entry env c entry2 st of
                                (r, st1) \<Rightarrow> (r, entry2, st1))))))"

text \<open>
  Line 321, the loop over \<^verbatim>\<open>rss.entries\<close>. The list that comes back is the feed with the
  attributes the loop assigned.
\<close>

fun entry_loop :: "env \<Rightarrow> config \<Rightarrow> val \<Rightarrow> rss_entry list \<Rightarrow> state \<Rightarrow> error option \<times> rss_entry list \<times> state" where
  "entry_loop env c last_entry_id [] st = (None, [], st)"
| "entry_loop env c last_entry_id (entry # es) st =
     (case process_entry env c last_entry_id entry st of
        (Raise err, entry1, st1) \<Rightarrow> (Some err, entry1 # es, st1)
      | (Break, entry1, st1) \<Rightarrow> (None, entry1 # es, st1)
      | (Continue, entry1, st1) \<Rightarrow>
          (case entry_loop env c last_entry_id es st1 of
             (r, es1, st2) \<Rightarrow> (r, entry1 # es1, st2)))"

subsection \<open>on_task_input: the watermark, and the whole function\<close>

text \<open>
  Lines 445 to 448. \<^verbatim>\<open>rss.entries[0].title\<close> is an attribute read: the attribute when the
  loop assigned it, else the key title, else AttributeError.
\<close>

definition save_last_entry :: "env \<Rightarrow> config \<Rightarrow> rss_entry list \<Rightarrow> state \<Rightarrow> error option \<times> state" where
  "save_last_entry env c es st =
     (case es of
        [] \<Rightarrow> (None, st)
      | first # rest \<Rightarrow>
          (let st1 = logm DEBUG Saving_location st in
           case egetattr first ''title'' of
             None \<Rightarrow> (Some AttributeError, st1)
           | Some t \<Rightarrow>
               (case py_add t (get_default (eget first ''guid'') (Str [])) of
                  Inl err \<Rightarrow> (Some err, st1)
                | Inr fingerprint \<Rightarrow> (None, persist (last_entry_key env c) fingerprint st1))))"

text \<open>Lines 304 to 454: from the parsed document to the returned entries.\<close>

definition create_entries :: "env \<Rightarrow> config \<Rightarrow> bool \<Rightarrow> rss \<Rightarrow> state \<Rightarrow> outcome \<times> state" where
  "create_entries env c all_entries_now r st =
     (let st1 = logm DEBUG Encoding st in
      case sort_entries all_entries_now (entries r) of
        Inl err \<Rightarrow> (Raised err, st1)
      | Inr es \<Rightarrow>
          (let last_entry_id = get_last_entry_id env c all_entries_now st1;
               st2 = st1\<lparr>new_entries := [], ignored := 0\<rparr>
           in case entry_loop env c last_entry_id es st2 of
                (Some err, es1, st3) \<Rightarrow> (Raised err, st3)
              | (None, es1, st3) \<Rightarrow>
                  (case save_last_entry env c es1 st3 of
                     (Some err, st4) \<Rightarrow> (Raised err, st4)
                   | (None, st4) \<Rightarrow>
                       (let st5 = (if ignored st4 \<noteq> 0 \<and> \<not> get_default (silent c) False
                                   then logm WARNING (Skipped_entries (ignored st4)) st4 else st4)
                        in (Returned (new_entries st5), st5)))))"

text \<open>Lines 241 to 302: the empty body, the parser, the bozo exception.\<close>

definition parse_content :: "env \<Rightarrow> config \<Rightarrow> bool \<Rightarrow> string \<Rightarrow> state \<Rightarrow> outcome \<times> state" where
  "parse_content env c all_entries_now data st =
     (if data = [] then (ReturnedNone, logm ERROR No_data_recieved st)
      else
        (case parse env data of
           None \<Rightarrow> (Raised PluginError, st)
         | Some r \<Rightarrow>
             (case check_bozo env c data r st of
                (Inl out, st1) \<Rightarrow> (out, st1)
              | (Inr ignore, st1) \<Rightarrow>
                  (case bozo_gate r ignore st1 of
                     (Inl out, st2) \<Rightarrow> (out, st2)
                   | (Inr x, st2) \<Rightarrow> create_entries env c all_entries_now r st2))))"

definition on_task_input :: "env \<Rightarrow> raw \<Rightarrow> state \<Rightarrow> outcome \<times> state" where
  "on_task_input env config_given st =
     (case build_config config_given of
        Inl err \<Rightarrow> (Raised err, st)
      | Inr c \<Rightarrow>
          (let st1 = logm DEBUG Requesting_task st;
               all_entries_now = (all_entries c \<or> config_modified env \<or> nocache env)
           in case request_headers env c all_entries_now st1 of
                (hdrs, st2) \<Rightarrow>
                  (case get_content env c hdrs st2 of
                     (Inl out, st3) \<Rightarrow> (out, st3)
                   | (Inr data, st3) \<Rightarrow> parse_content env c all_entries_now data st3)))"

subsection \<open>Example runs\<close>

text \<open>
  Concrete libraries for the examples: the base name of a URL that has no query and no
  fragment, and \<^verbatim>\<open>int\<close> on a string of decimal digits.
\<close>

definition url_basename :: "unicode \<Rightarrow> unicode option" where
  "url_basename s = Some (rev (takeWhile (\<lambda>c. c \<noteq> 47) (rev s)))"

definition decimal :: "unicode \<Rightarrow> int option" where
  "decimal s =
     (if s \<noteq> [] \<and> list_all (\<lambda>c. 48 \<le> c \<and> c \<le> 57) s
      then Some (foldl (\<lambda>n c. 10 * n + int (c - 48)) 0 s) else None)"

definition no_network :: "string \<Rightarrow> (string \<times> val) list \<Rightarrow> (unicode \<times> unicode) option \<Rightarrow> response option" where
  "no_network s hdrs auth = None"

text \<open>
  An environment whose parser answers \<open>r\<close> for every document and whose files all hold
  \<^verbatim>\<open><rss>\<close>.
\<close>

definition example_env :: "(string \<Rightarrow> (string \<times> val) list \<Rightarrow> (unicode \<times> unicode) option \<Rightarrow> response option) \<Rightarrow> rss \<Rightarrow> env" where
  "example_env get r =
     \<lparr>config_modified = False, nocache = False, debug = False, url_hash = (\<lambda>s. ''1234''),
      requests_get = get, open_read = (\<lambda>path. Some ''<rss>''), parse = (\<lambda>data. Some r),
      decode_html = Some, basename_of_url = url_basename, py_int = decimal\<rparr>"

definition fresh :: state where
  "fresh =
     \<lparr>simple_persistence = Map.empty, persisted = [], no_entries_ok = False, log = [],
      received = [], new_entries = [], ignored = 0\<rparr>"

definition entry_of :: "(string \<times> val) list \<Rightarrow> enclosure list option \<Rightarrow> rss_entry" where
  "entry_of fs encs = \<lparr>efields = fs, published_parsed = None, enclosures = encs, title_attr = None\<rparr>"

definition enclosure_of :: "unicode option \<Rightarrow> unicode option \<Rightarrow> enclosure" where
  "enclosure_of h l = \<lparr>enc_href = h, enc_length = l, enc_type = None\<rparr>"

definition clean_feed :: "rss_entry list \<Rightarrow> rss" where
  "clean_feed es = \<lparr>bozo = Some False, bozo_exception = None, entries = es\<rparr>"

text \<open>The title and the url of each returned entry; None when the run returned no list.\<close>

definition summary :: "outcome \<Rightarrow> (val option \<times> val option) list option" where
  "summary out =
     (case out of Returned items \<Rightarrow> Some (map (\<lambda>i. (i ''title'', i ''url'')) items) | _ \<Rightarrow> None)"

text \<open>A server that answers 200 with an etag, a date and a login page that does not parse.\<close>

definition login_page :: "string \<Rightarrow> (string \<times> val) list \<Rightarrow> (unicode \<times> unicode) option \<Rightarrow> response option" where
  "login_page s hdrs auth =
     Some \<lparr>status_code = 200, headers = [(''etag'', u ''v1''), (''last-modified'', u ''Tue'')],
           content = ''<html>login</html>''\<rparr>"

definition broken_feed :: rss where
  "broken_feed = \<lparr>bozo = Some True, bozo_exception = Some SAXParseException, entries = []\<rparr>"

text \<open>A feed of one entry whose title holds a zero width space.\<close>

definition zero_width_feed :: rss where
  "zero_width_feed =
     clean_feed [entry_of [(''title'', Str [97, 8203, 98]), (''link'', Str (u ''http://x/1''))] None]"



text \<open>A feed with an entry, and an exception of a kind the plugin does not name.\<close>

definition other_bozo_feed :: rss where
  "other_bozo_feed =
     \<lparr>bozo = Some True, bozo_exception = Some OtherException,
      entries = [entry_of [(''title'', Str (u ''A'')), (''link'', Str (u ''http://x/1''))] None]\<rparr>"

text \<open>A feed whose first entry has an empty title and the guid g.\<close>

definition empty_title_feed :: rss where
  "empty_title_feed =
     clean_feed
       [entry_of [(''title'', Str []), (''guid'', Str (u ''g''))] None,
        entry_of [(''title'', Str (u ''B'')), (''link'', Str (u ''http://x/2''))] None]"

text \<open>A feed of one entry that has a link and no title.\<close>

definition untitled_feed :: rss where
  "untitled_feed = clean_feed [entry_of [(''link'', Str (u ''http://x/1''))] None]"

text \<open>A feed whose entry has a list of tags, and a configuration that asks for the tags.\<close>

definition tags_feed :: rss where
  "tags_feed =
     clean_feed
       [entry_of [(''title'', Str (u ''A'')), (''link'', Str (u ''http://x/1'')),
                  (''tags'', ListV [DictV [(''term'', Str (u ''tv''))]])] None]"

definition tags_config :: raw where
  "tags_config = Advanced ((empty_raw_config ''feed.xml'')\<lparr>raw_other_fields := Some [FieldName ''tags'']\<rparr>)"

text \<open>A feed whose entry has two enclosures and no link, read with \<^verbatim>\<open>group_links\<close>.\<close>

definition enclosures_only_feed :: rss where
  "enclosures_only_feed =
     clean_feed
       [entry_of [(''title'', Str (u ''A''))]
          (Some [enclosure_of (Some (u ''http://x/a'')) None, enclosure_of (Some (u ''http://x/b'')) None])]"

definition group_links_config :: raw where
  "group_links_config = Advanced ((empty_raw_config ''feed.xml'')\<lparr>raw_group_links := Some True\<rparr>)"

text \<open>A feed whose entry has three enclosures, the second without href.\<close>

definition three_enclosures_feed :: rss where
  "three_enclosures_feed =
     clean_feed
       [entry_of [(''title'', Str (u ''A'')), (''link'', Str (u ''http://x/1''))]
          (Some [enclosure_of (Some (u ''http://x/a'')) (Some (u ''10'')),
                 enclosure_of None (Some (u ''20'')),
                 enclosure_of (Some (u ''http://x/c'')) (Some (u ''n/a''))])]"

text \<open>A file that is there and holds nothing.\<close>

definition empty_file_env :: env where
  "empty_file_env = (example_env no_network (clean_feed []))\<lparr>open_read := (\<lambda>path. Some [])\<rparr>"

text \<open>A server that answers 200 with an etag and a feed of one entry.\<close>

definition feed_server :: "string \<Rightarrow> (string \<times> val) list \<Rightarrow> (unicode \<times> unicode) option \<Rightarrow> response option" where
  "feed_server s hdrs auth =
     Some \<lparr>status_code = 200, headers = [(''etag'', u ''v1'')], content = ''<rss>''\<rparr>"

definition one_entry_feed :: rss where
  "one_entry_feed =
     clean_feed [entry_of [(''title'', Str (u ''A'')), (''link'', Str (u ''http://x/1''))] None]"

text \<open>The configuration that \<^verbatim>\<open>build_config\<close> makes of the bare URL feed.xml.\<close>

definition default_config :: config where
  "default_config =
     \<lparr>url = ''feed.xml'', username = None, password = None, title = None,
      link = LinkField ''auto'', other_fields = None, silent = None, ascii = None,
      filename = None, group_links = False, all_entries = False\<rparr>"

text \<open>An entry with a title and a link.\<close>

definition titled :: "string \<Rightarrow> string \<Rightarrow> rss_entry" where
  "titled t l = entry_of [(''title'', Str (u t)), (''link'', Str (u l))] None"

definition five_entries :: "rss_entry list" where
  "five_entries =
     [titled ''E0'' ''http://x/0'', titled ''E1'' ''http://x/1'', titled ''E2'' ''http://x/2'',
      titled ''E3'' ''http://x/3'', titled ''E4'' ''http://x/4'']"

text \<open>An entry with three enclosures that all have an href.\<close>

definition three_hrefs :: rss_entry where
  "three_hrefs =
     entry_of [(''title'', Str (u ''A'')), (''link'', Str (u ''http://x/1''))]
       (Some [enclosure_of (Some (u ''http://x/a'')) (Some (u ''10'')),
              enclosure_of (Some (u ''http://x/b'')) None,
              enclosure_of (Some (u ''http://x/c'')) (Some (u ''n/a''))])"


subsection \<open>Notions the properties are stated with\<close>

text \<open>The persisted cache of a source: the store and the assignments made to it.\<close>

definition cache_state :: "state \<Rightarrow> (string \<rightharpoonup> val) \<times> (string \<times> val) list" where
  "cache_state st = (simple_persistence st, persisted st)"

text \<open>
  The fingerprint of an entry that has a title: the title as the feed has it, plus the
  guid, or plus the empty string when there is no guid. An entry whose title field is
  missing or empty has none (and none when \<^verbatim>\<open>+\<close> raises).
\<close>

definition fingerprint :: "config \<Rightarrow> rss_entry \<Rightarrow> val option" where
  "fingerprint c entry =
     (case eget entry (get_default (title c) ''title'') of
        None \<Rightarrow> None
      | Some t \<Rightarrow>
          if truthy t then
            (case py_add t (get_default (eget entry ''guid'') (Str [])) of
               Inl err \<Rightarrow> None
             | Inr fp \<Rightarrow> Some fp)
          else None)"

section \<open>Properties\<close>

subsection \<open>Unfolding the model on examples\<close>

lemmas model_defs = on_task_input_def build_config_def empty_raw_config_def get_default_def
  logm_def request_headers_def get_content_def startswith_def parse_content_def check_bozo_def
  bozo_gate_def create_entries_def sort_entries_def get_last_entry_id_def process_entry_def
  create_from_entry_def resolve_link_def add_entry_def grab_fields_of_def fixed_fields_def
  save_last_entry_def persist_def eget_def egetattr_def get_enclosures_def truthy_opt_def
  encode_ascii_ignore_def replace_zero_width_def etag_key_def modified_key_def last_entry_key_def
  update_cache_def group_urls_def add_enclosure_info_def remove_other_field_def
  process_invalid_content_def lower_def lower_char_def sort_desc_def enclosure_val_def
  replace_colon_def Let_def

lemmas example_defs = example_env_def no_network_def fresh_def entry_of_def enclosure_of_def
  clean_feed_def summary_def u_def url_basename_def decimal_def default_config_def titled_def

subsection \<open>What the steps leave alone\<close>

lemma cache_state_logm [simp]: "cache_state (logm l m st) = cache_state st"
  by (simp add: cache_state_def logm_def)

lemma cache_state_updates [simp]:
  "cache_state (st\<lparr>no_entries_ok := b\<rparr>) = cache_state st"
  "cache_state (st\<lparr>ignored := n\<rparr>) = cache_state st"
  "cache_state (st\<lparr>new_entries := es\<rparr>) = cache_state st"
  "cache_state (st\<lparr>received := rs\<rparr>) = cache_state st"
  "cache_state (st\<lparr>log := ms\<rparr>) = cache_state st"
  by (simp_all add: cache_state_def)

lemma flag_logm [simp]: "no_entries_ok (logm l m st) = no_entries_ok st"
  by (simp add: logm_def)

lemma flag_persist [simp]: "no_entries_ok (persist k v st) = no_entries_ok st"
  by (simp add: persist_def)

lemma log_logm [simp]: "log (logm l m st) = log st @ [(l, m)]"
  by (simp add: logm_def)

lemma request_headers_cache: "cache_state (snd (request_headers env c a st)) = cache_state st"
  by (simp add: request_headers_def Let_def split: prod.splits)

lemma request_headers_flag: "no_entries_ok (snd (request_headers env c a st)) = no_entries_ok st"
  by (simp add: request_headers_def Let_def split: prod.splits)

lemma update_cache_flag: "no_entries_ok (update_cache env c r st) = no_entries_ok st"
  by (simp add: update_cache_def Let_def split: option.splits)

lemma get_content_flag:
  "get_content env c hdrs st = (Inr data, st') \<Longrightarrow> no_entries_ok st' = no_entries_ok st"
  by (auto simp: get_content_def Let_def update_cache_flag split: option.splits if_splits)

lemma parse_content_empty:
  "parse_content env c a [] st = (ReturnedNone, logm ERROR No_data_recieved st)"
  by (simp add: parse_content_def)

subsection \<open>The empty body\<close>

text \<open>
  C10: when the fetch succeeds and the body is empty, \<^verbatim>\<open>on_task_input\<close> logs the error
  "No data recieved for rss feed." and returns None: not a list of entries, not a raised
  error, and without setting \<^verbatim>\<open>task.no_entries_ok\<close>, the signal that an empty result is
  acceptable.
\<close>

theorem empty_body_returns_None:
  assumes "build_config config_given = Inr c"
    and "request_headers env c (all_entries c \<or> config_modified env \<or> nocache env)
           (logm DEBUG Requesting_task st) = (hdrs, st2)"
    and "get_content env c hdrs st2 = (Inr [], st3)"
  shows "on_task_input env config_given st = (ReturnedNone, logm ERROR No_data_recieved st3) \<and>
         no_entries_ok st3 = no_entries_ok st"
proof -
  have run: "on_task_input env config_given st = parse_content env c
      (all_entries c \<or> config_modified env \<or> nocache env) [] st3"
    using assms by (simp add: on_task_input_def)
  have "no_entries_ok st2 = no_entries_ok st"
    using request_headers_flag [of env c "all_entries c \<or> config_modified env \<or> nocache env"
        "logm DEBUG Requesting_task st"] assms(2) by simp
  moreover have "no_entries_ok st3 = no_entries_ok st2"
    using assms(3) by (rule get_content_flag)
  ultimately show ?thesis
    using run by (simp add: parse_content_empty)
qed

text \<open>C10 on an example: the feed is a file that holds nothing.\<close>

theorem empty_body_returns_None_witness:
  "on_task_input empty_file_env (Url ''feed.xml'') fresh
     = (ReturnedNone, logm ERROR No_data_recieved (logm DEBUG Requesting_task fresh)) \<and>
   no_entries_ok (logm DEBUG Requesting_task fresh) = no_entries_ok fresh"
proof -
  have c: "build_config (Url ''feed.xml'') = Inr
      \<lparr>url = ''feed.xml'', username = None, password = None, title = None,
       link = LinkField ''auto'', other_fields = None, silent = None, ascii = None,
       filename = None, group_links = False, all_entries = False\<rparr>" (is "_ = Inr ?c")
    by (simp add: build_config_def empty_raw_config_def get_default_def)
  have h: "request_headers empty_file_env ?c
      (all_entries ?c \<or> config_modified empty_file_env \<or> nocache empty_file_env)
      (logm DEBUG Requesting_task fresh) = ([], logm DEBUG Requesting_task fresh)"
    by (simp add: request_headers_def empty_file_env_def example_env_def fresh_def logm_def
        truthy_opt_def etag_key_def modified_key_def)
  have g: "get_content empty_file_env ?c [] (logm DEBUG Requesting_task fresh)
      = (Inr [], logm DEBUG Requesting_task fresh)"
    by (simp add: get_content_def empty_file_env_def example_env_def startswith_def)
  show ?thesis
    using empty_body_returns_None [OF c h g] by simp
qed

subsection \<open>Runs that the code ends differently\<close>

text \<open>
  C2, on a feed whose only entry has the title a, zero width space, b: the first run
  returns the entry and stores the watermark ab, made from the cleaned title; the second
  run compares the watermark with the title as the feed has it, finds no match and
  returns the entry again.
\<close>

theorem zero_width_title_twice:
  "summary (fst (on_task_input (example_env no_network zero_width_feed) (Url ''feed.xml'') fresh))
     = Some [(Some (Str [97, 98]), Some (Str (u ''http://x/1'')))] \<and>
   persisted (snd (on_task_input (example_env no_network zero_width_feed) (Url ''feed.xml'') fresh))
     = [(''1234_last_entry'', Str [97, 98])] \<and>
   summary (fst (on_task_input (example_env no_network zero_width_feed) (Url ''feed.xml'')
       (snd (on_task_input (example_env no_network zero_width_feed) (Url ''feed.xml'') fresh))))
     = Some [(Some (Str [97, 98]), Some (Str (u ''http://x/1'')))]"
  by (simp add: model_defs example_defs zero_width_feed_def)

text \<open>
  C4, on a feed with one entry and a bozo exception of a kind the plugin does not name:
  the message that the error is ignored is logged, \<^verbatim>\<open>ignore\<close> stays false, and the run
  logs two errors and returns None without creating an entry.
\<close>

theorem other_bozo_with_entries_returns_None:
  "fst (on_task_input (example_env no_network other_bozo_feed) (Url ''feed.xml'') fresh) = ReturnedNone \<and>
   log (snd (on_task_input (example_env no_network other_bozo_feed) (Url ''feed.xml'') fresh))
     = [(DEBUG, Requesting_task), (INFO, Invalid_RSS_received), (ERROR, Rss_dump),
        (ERROR, Bozo_exception_on_task)]"
  by (simp add: model_defs example_defs other_bozo_feed_def)

text \<open>
  C6, on a feed whose only entry has a link and no title: the loop skips the entry, and
  \<^verbatim>\<open>rss.entries[0].title\<close> raises AttributeError before anything is stored.
\<close>

theorem untitled_first_entry_raises:
  "fst (on_task_input (example_env no_network untitled_feed) (Url ''feed.xml'') fresh)
     = Raised AttributeError \<and>
   persisted (snd (on_task_input (example_env no_network untitled_feed) (Url ''feed.xml'') fresh)) = []"
  by (simp add: model_defs example_defs untitled_feed_def)

text \<open>
  C7, on an entry whose field tags is a list, with \<^verbatim>\<open>other_fields: [tags]\<close>: the error is
  logged and \<^verbatim>\<open>config['other_fields'].remove('tags')\<close> raises ValueError, which ends the run.
\<close>

theorem non_text_field_raises:
  "fst (on_task_input (example_env no_network tags_feed) tags_config fresh) = Raised ValueError \<and>
   log (snd (on_task_input (example_env no_network tags_feed) tags_config fresh))
     = [(DEBUG, Requesting_task), (DEBUG, Encoding), (ERROR, Cannot_grab_non_text_field ''tags'')]"
  by (simp add: model_defs example_defs tags_feed_def tags_config_def)

text \<open>
  C8, on an entry with a title, two enclosures and no link, with \<^verbatim>\<open>group_links\<close>: no url
  is resolved, and \<^verbatim>\<open>e['url']\<close> raises KeyError before the test that would drop the entry.
\<close>

theorem group_links_without_url_raises:
  "fst (on_task_input (example_env no_network enclosures_only_feed) group_links_config fresh)
     = Raised KeyError"
  by (simp add: model_defs example_defs enclosures_only_feed_def group_links_config_def)

subsection \<open>The persisted cache\<close>

lemma process_invalid_content_cache [simp]:
  "cache_state (process_invalid_content d st) = cache_state st"
  by (simp add: process_invalid_content_def Let_def split: option.splits)

lemma check_bozo_cache: "cache_state (snd (check_bozo env c data r st)) = cache_state st"
  by (simp add: check_bozo_def Let_def split: option.splits bozo_exception.splits)

lemma bozo_gate_cache: "cache_state (snd (bozo_gate r ignore st)) = cache_state st"
  by (simp add: bozo_gate_def split: option.splits)

lemma add_enclosure_info_cache:
  "cache_state (snd (add_enclosure_info env e enc f m st)) = cache_state st"
  by (simp add: add_enclosure_info_def Let_def split: option.splits)

lemma grab_fields_cache:
  "cache_state (snd (grab_fields env c entry fs ea st)) = cache_state st"
proof (induction fs arbitrary: ea st)
  case Nil
  then show ?case by simp
next
  case (Cons f fs)
  obtain rss_field flexget_field where f: "f = (rss_field, flexget_field)"
    by (cases f)
  show ?case
    unfolding f by (simp add: Cons split: option.splits val.splits)
qed

lemma add_entry_cache: "cache_state (snd (add_entry env c entry ea st)) = cache_state st"
proof (cases "egetattr entry ''title''")
  case None
  then show ?thesis by (simp add: add_entry_def)
next
  case (Some t)
  obtain r st1 where g: "grab_fields env c entry (grab_fields_of c) (ea(''title'' \<mapsto> t)) st = (r, st1)"
    by (cases "grab_fields env c entry (grab_fields_of c) (ea(''title'' \<mapsto> t)) st")
  then have "cache_state st1 = cache_state st"
    using grab_fields_cache [of env c entry "grab_fields_of c" "ea(''title'' \<mapsto> t)" st] by simp
  then show ?thesis
    using Some g by (cases r) (simp_all add: add_entry_def Let_def)
qed

lemma fan_out_cache: "cache_state (snd (fan_out env c entry encs st)) = cache_state st"
proof (induction encs arbitrary: st)
  case Nil
  then show ?case by simp
next
  case (Cons enc encs)
  show ?case
  proof (cases "enc_href enc")
    case None
    then show ?thesis using Cons [of "logm DEBUG Enclosure_does_not_have_URL st"] by simp
  next
    case (Some h)
    then have False: "enc_href enc \<noteq> None" by simp
    obtain r st1 where a: "add_enclosure_info env Map.empty enc (get_default (filename c) True) True st = (r, st1)"
      by (cases "add_enclosure_info env Map.empty enc (get_default (filename c) True) True st")
    then have c1: "cache_state st1 = cache_state st"
      using add_enclosure_info_cache [of env Map.empty enc "get_default (filename c) True" True st] by simp
    show ?thesis
    proof (cases r)
      case (Inl err)
      then show ?thesis using Some a c1 by simp
    next
      case (Inr ee)
      obtain r2 st2 where b: "add_entry env c entry ee st1 = (r2, st2)"
        by (cases "add_entry env c entry ee st1")
      then have c2: "cache_state st2 = cache_state st1"
        using add_entry_cache [of env c entry ee st1] by simp
      show ?thesis
        using Some a Inr b c1 c2 Cons [of st2] by (cases r2) simp_all
    qed
  qed
qed

lemma resolve_link_cache: "cache_state (snd (resolve_link env c entry st)) = cache_state st"
  by (simp add: resolve_link_def add_enclosure_info_cache split: link_cfg.splits)

lemma create_from_entry_fan_out:
  assumes "1 < length (get_enclosures entry)" and "\<not> group_links c"
  shows "create_from_entry env c entry st =
     (case fan_out env c entry (get_enclosures entry)
             (logm DEBUG (Adding_entries_from_enclosures (length (get_enclosures entry))) st) of
        (Some err, st1) \<Rightarrow> (Raise err, st1)
      | (None, st1) \<Rightarrow> (Continue, st1))"
  using assms by (simp add: create_from_entry_def)

lemma create_from_entry_single:
  assumes "\<not> (1 < length (get_enclosures entry) \<and> \<not> group_links c)"
  shows "create_from_entry env c entry st =
     (case resolve_link env c entry st of
        (Inl err, st1) \<Rightarrow> (Raise err, st1)
      | (Inr e, st1) \<Rightarrow>
          (case (if group_links c then group_urls entry e else Inr e) of
             Inl err \<Rightarrow> (Raise err, st1)
           | Inr e1 \<Rightarrow>
               if \<not> truthy_opt (e1 ''url'') then
                 (Continue, (logm DEBUG Does_not_have_link_or_enclosure st1)\<lparr>ignored := ignored st1 + 1\<rparr>)
               else
                 (case add_entry env c entry e1 st1 of
                    (Some err, st2) \<Rightarrow> (Raise err, st2)
                  | (None, st2) \<Rightarrow> (Continue, st2))))"
  using assms unfolding create_from_entry_def by (simp only: if_False)

lemma create_from_entry_cache:
  "cache_state (snd (create_from_entry env c entry st)) = cache_state st"
proof (cases "length (get_enclosures entry) > 1 \<and> \<not> group_links c")
  case True
  let ?st = "logm DEBUG (Adding_entries_from_enclosures (length (get_enclosures entry))) st"
  obtain r st1 where f: "fan_out env c entry (get_enclosures entry) ?st = (r, st1)"
    by (cases "fan_out env c entry (get_enclosures entry) ?st")
  then have "cache_state st1 = cache_state st"
    using fan_out_cache [of env c entry "get_enclosures entry" ?st] by simp
  then show ?thesis
    using True f by (cases r) (simp_all add: create_from_entry_fan_out)
next
  case False
  obtain r st1 where l: "resolve_link env c entry st = (r, st1)"
    by (cases "resolve_link env c entry st")
  then have c1: "cache_state st1 = cache_state st"
    using resolve_link_cache [of env c entry st] by simp
  show ?thesis
  proof (cases r)
    case (Inl err)
    then show ?thesis using l c1 by (simp add: create_from_entry_single [OF False])
  next
    case (Inr e)
    show ?thesis
    proof (cases "if group_links c then group_urls entry e else Inr e")
      case (Inl err)
      then show ?thesis using l \<open>r = Inr e\<close> c1 by (simp add: create_from_entry_single [OF False])
    next
      case (Inr e1)
      obtain r2 st2 where b: "add_entry env c entry e1 st1 = (r2, st2)"
        by (cases "add_entry env c entry e1 st1")
      then have c2: "cache_state st2 = cache_state st1"
        using add_entry_cache [of env c entry e1 st1] by simp
      show ?thesis
        using l \<open>r = Inr e\<close> Inr b c1 c2
        by (cases r2) (simp_all add: create_from_entry_single [OF False])
    qed
  qed
qed

lemma create_from_entry_cacheD:
  "create_from_entry env c entry st = (r, st') \<Longrightarrow> cache_state st' = cache_state st"
  using create_from_entry_cache [of env c entry st] by simp

lemma process_entry_cache:
  "cache_state (snd (snd (process_entry env c lid entry st))) = cache_state st"
  by (auto simp: process_entry_def Let_def dest: create_from_entry_cacheD
      split: option.splits sum.splits prod.splits if_splits)

lemma entry_loop_cache:
  "cache_state (snd (snd (entry_loop env c lid es st))) = cache_state st"
proof (induction es arbitrary: st)
  case Nil
  then show ?case by simp
next
  case (Cons entry es)
  obtain r entry1 st1 where p: "process_entry env c lid entry st = (r, entry1, st1)"
    by (cases "process_entry env c lid entry st")
  then have c1: "cache_state st1 = cache_state st"
    using process_entry_cache [of env c lid entry st] by simp
  show ?case
    using p c1 Cons [of st1] by (cases r) (auto split: prod.splits)
qed

lemma entry_loop_cacheD:
  "entry_loop env c lid es st = (r, es', st') \<Longrightarrow> cache_state st' = cache_state st"
  using entry_loop_cache [of env c lid es st] by simp

text \<open>The assignments a step adds to the store.\<close>

lemma update_cache_writes:
  "\<exists>fetched.
     persisted (update_cache env c r st) = persisted st @ fetched \<and>
     simple_persistence (update_cache env c r st)
       = foldl (\<lambda>m kv. m(fst kv \<mapsto> snd kv)) (simple_persistence st) fetched \<and>
     distinct (map fst fetched) \<and>
     set (map fst fetched) \<subseteq> {etag_key env c, modified_key env c} \<and>
     (fetched \<noteq> [] \<longrightarrow> \<not> all_entries c)"
proof (cases "all_entries c")
  case True
  then show ?thesis by (simp add: update_cache_def)
next
  case False
  define st1 where "st1 = (case map_of (headers r) ''etag'' of
                      None \<Rightarrow> st
                    | Some etag \<Rightarrow>
                        if etag \<noteq> [] then logm DEBUG Etag_saved (persist (etag_key env c) (Str etag) st)
                        else st)"
  have 1: "\<exists>w. persisted st1 = persisted st @ w \<and>
      simple_persistence st1 = foldl (\<lambda>m kv. m(fst kv \<mapsto> snd kv)) (simple_persistence st) w \<and>
      (w = [] \<or> (\<exists>v. w = [(etag_key env c, v)]))"
    by (auto simp: st1_def persist_def logm_def split: option.splits)
  then obtain w where w: "persisted st1 = persisted st @ w"
      "simple_persistence st1 = foldl (\<lambda>m kv. m(fst kv \<mapsto> snd kv)) (simple_persistence st) w"
      "w = [] \<or> (\<exists>v. w = [(etag_key env c, v)])"
    by blast
  have 2: "\<exists>w2. persisted (update_cache env c r st) = persisted st1 @ w2 \<and>
      simple_persistence (update_cache env c r st)
        = foldl (\<lambda>m kv. m(fst kv \<mapsto> snd kv)) (simple_persistence st1) w2 \<and>
      (w2 = [] \<or> (\<exists>v. w2 = [(modified_key env c, v)]))"
    using False
    by (auto simp: update_cache_def Let_def st1_def [symmetric] persist_def logm_def split: option.splits)
  then obtain w2 where w2: "persisted (update_cache env c r st) = persisted st1 @ w2"
      "simple_persistence (update_cache env c r st)
        = foldl (\<lambda>m kv. m(fst kv \<mapsto> snd kv)) (simple_persistence st1) w2"
      "w2 = [] \<or> (\<exists>v. w2 = [(modified_key env c, v)])"
    by blast
  have ne: "etag_key env c \<noteq> modified_key env c"
    by (simp add: etag_key_def modified_key_def)
  show ?thesis
  proof (intro exI [of _ "w @ w2"] conjI)
    show "persisted (update_cache env c r st) = persisted st @ w @ w2"
      using w(1) w2(1) by simp
    show "simple_persistence (update_cache env c r st)
       = foldl (\<lambda>m kv. m(fst kv \<mapsto> snd kv)) (simple_persistence st) (w @ w2)"
      using w(2) w2(2) by simp
    show "distinct (map fst (w @ w2))"
      using w(3) w2(3) ne by auto
    show "set (map fst (w @ w2)) \<subseteq> {etag_key env c, modified_key env c}"
      using w(3) w2(3) by auto
    show "w @ w2 \<noteq> [] \<longrightarrow> \<not> all_entries c"
      using False by simp
  qed
qed

lemma save_last_entry_saved:
  assumes "save_last_entry env c es st = (r, st')"
  shows "cache_state st' = cache_state st \<or>
     (\<exists>fp t. r = None \<and> es \<noteq> [] \<and> egetattr (hd es) ''title'' = Some t \<and>
        py_add t (get_default (eget (hd es) ''guid'') (Str [])) = Inr fp \<and>
        persisted st' = persisted st @ [(last_entry_key env c, fp)] \<and>
        simple_persistence st' = (simple_persistence st)(last_entry_key env c \<mapsto> fp) \<and>
        new_entries st' = new_entries st \<and> ignored st' = ignored st)"
proof (cases es)
  case Nil
  then show ?thesis using assms by (auto simp: save_last_entry_def)
next
  case (Cons first rest)
  show ?thesis
  proof (cases "egetattr first ''title''")
    case None
    then show ?thesis using assms Cons by (auto simp: save_last_entry_def Let_def)
  next
    case (Some t)
    show ?thesis
    proof (cases "py_add t (get_default (eget first ''guid'') (Str []))")
      case (Inl err)
      then show ?thesis using assms Cons Some by (auto simp: save_last_entry_def Let_def)
    next
      case (Inr fp)
      then have "r = None" "st' = persist (last_entry_key env c) fp (logm DEBUG Saving_location st)"
        using assms Cons Some by (auto simp: save_last_entry_def Let_def)
      then show ?thesis
        using Cons Some Inr by (simp add: persist_def logm_def)
    qed
  qed
qed

lemma create_entries_saved:
  assumes "create_entries env c a r st = (out, st')"
  shows "cache_state st' = cache_state st \<or>
     (\<exists>fp t es es1 st3.
        sort_entries a (entries r) = Inr es \<and>
        entry_loop env c (get_last_entry_id env c a (logm DEBUG Encoding st)) es
          ((logm DEBUG Encoding st)\<lparr>new_entries := [], ignored := 0\<rparr>) = (None, es1, st3) \<and>
        es1 \<noteq> [] \<and> egetattr (hd es1) ''title'' = Some t \<and>
        py_add t (get_default (eget (hd es1) ''guid'') (Str [])) = Inr fp \<and>
        out = Returned (new_entries st3) \<and>
        persisted st' = persisted st @ [(last_entry_key env c, fp)] \<and>
        simple_persistence st' = (simple_persistence st)(last_entry_key env c \<mapsto> fp))"
proof (cases "sort_entries a (entries r)")
  case (Inl err)
  then show ?thesis using assms by (auto simp: create_entries_def Let_def)
next
  case (Inr es)
  let ?st2 = "(logm DEBUG Encoding st)\<lparr>new_entries := [], ignored := 0\<rparr>"
  let ?lid = "get_last_entry_id env c a (logm DEBUG Encoding st)"
  obtain r1 es1 st3 where l: "entry_loop env c ?lid es ?st2 = (r1, es1, st3)"
    by (cases "entry_loop env c ?lid es ?st2")
  then have c3: "cache_state st3 = cache_state st"
    using entry_loop_cacheD [OF l] by simp
  show ?thesis
  proof (cases r1)
    case (Some err)
    then show ?thesis using assms Inr l c3 by (auto simp: create_entries_def Let_def)
  next
    case None
    obtain r2 st4 where s: "save_last_entry env c es1 st3 = (r2, st4)"
      by (cases "save_last_entry env c es1 st3")
    show ?thesis
    proof (cases r2)
      case (Some err)
      then have "cache_state st4 = cache_state st3"
        using save_last_entry_saved [OF s] by auto
      then show ?thesis
        using assms Inr l None s Some c3 by (auto simp: create_entries_def Let_def)
    next
      case None2: None
      have out: "out = Returned (new_entries st') \<and> cache_state st' = cache_state st4 \<and>
          new_entries st' = new_entries st4"
        using assms Inr l None s None2
        by (auto simp: create_entries_def Let_def logm_def split: if_splits)
      from save_last_entry_saved [OF s] show ?thesis
      proof
        assume "cache_state st4 = cache_state st3"
        then show ?thesis using out c3 by simp
      next
        assume "\<exists>fp t. r2 = None \<and> es1 \<noteq> [] \<and> egetattr (hd es1) ''title'' = Some t \<and>
          py_add t (get_default (eget (hd es1) ''guid'') (Str [])) = Inr fp \<and>
          persisted st4 = persisted st3 @ [(last_entry_key env c, fp)] \<and>
          simple_persistence st4 = (simple_persistence st3)(last_entry_key env c \<mapsto> fp) \<and>
          new_entries st4 = new_entries st3 \<and> ignored st4 = ignored st3"
        then obtain fp t where f: "es1 \<noteq> []" "egetattr (hd es1) ''title'' = Some t"
            "py_add t (get_default (eget (hd es1) ''guid'') (Str [])) = Inr fp"
            "persisted st4 = persisted st3 @ [(last_entry_key env c, fp)]"
            "simple_persistence st4 = (simple_persistence st3)(last_entry_key env c \<mapsto> fp)"
            "new_entries st4 = new_entries st3"
          by blast
        have p: "persisted st' = persisted st @ [(last_entry_key env c, fp)]"
            "simple_persistence st' = (simple_persistence st)(last_entry_key env c \<mapsto> fp)"
          using out c3 f(4,5) by (simp_all add: cache_state_def)
        have o: "out = Returned (new_entries st3)"
          using out f(6) by simp
        have l': "entry_loop env c ?lid es ?st2 = (None, es1, st3)"
          using l None by simp
        show ?thesis
          using Inr l' f(1,2,3) o p by blast
      qed
    qed
  qed
qed

lemma parse_content_saved:
  assumes "parse_content env c a data st = (out, st')"
  shows "cache_state st' = cache_state st \<or>
     (\<exists>fp t r ignore st1 st2 es es1 st3.
        data \<noteq> [] \<and> parse env data = Some r \<and>
        check_bozo env c data r st = (Inr ignore, st1) \<and>
        bozo_gate r ignore st1 = (Inr (), st2) \<and>
        sort_entries a (entries r) = Inr es \<and>
        entry_loop env c (get_last_entry_id env c a (logm DEBUG Encoding st2)) es
          ((logm DEBUG Encoding st2)\<lparr>new_entries := [], ignored := 0\<rparr>) = (None, es1, st3) \<and>
        es1 \<noteq> [] \<and> egetattr (hd es1) ''title'' = Some t \<and>
        py_add t (get_default (eget (hd es1) ''guid'') (Str [])) = Inr fp \<and>
        out = Returned (new_entries st3) \<and>
        persisted st' = persisted st @ [(last_entry_key env c, fp)] \<and>
        simple_persistence st' = (simple_persistence st)(last_entry_key env c \<mapsto> fp))"
proof (cases "data = []")
  case True
  then show ?thesis using assms by (auto simp: parse_content_def)
next
  case False
  show ?thesis
  proof (cases "parse env data")
    case None
    then show ?thesis using assms False by (auto simp: parse_content_def)
  next
    case (Some r)
    obtain b st1 where cb: "check_bozo env c data r st = (b, st1)"
      by (cases "check_bozo env c data r st")
    then have c1: "cache_state st1 = cache_state st"
      using check_bozo_cache [of env c data r st] by simp
    show ?thesis
    proof (cases b)
      case (Inl o1)
      then show ?thesis using assms False Some cb c1 by (auto simp: parse_content_def)
    next
      case (Inr ignore)
      obtain g st2 where bg: "bozo_gate r ignore st1 = (g, st2)"
        by (cases "bozo_gate r ignore st1")
      then have c2: "cache_state st2 = cache_state st"
        using bozo_gate_cache [of r ignore st1] c1 by simp
      show ?thesis
      proof (cases g)
        case (Inl o2)
        then show ?thesis using assms False Some cb Inr bg c2 by (auto simp: parse_content_def)
      next
        case Inr2: (Inr x)
        then have ce: "create_entries env c a r st2 = (out, st')"
          using assms False Some cb Inr bg by (simp add: parse_content_def)
        from create_entries_saved [OF ce] show ?thesis
        proof
          assume "cache_state st' = cache_state st2"
          then show ?thesis using c2 by simp
        next
          assume "\<exists>fp t es es1 st3.
            sort_entries a (entries r) = Inr es \<and>
            entry_loop env c (get_last_entry_id env c a (logm DEBUG Encoding st2)) es
              ((logm DEBUG Encoding st2)\<lparr>new_entries := [], ignored := 0\<rparr>) = (None, es1, st3) \<and>
            es1 \<noteq> [] \<and> egetattr (hd es1) ''title'' = Some t \<and>
            py_add t (get_default (eget (hd es1) ''guid'') (Str [])) = Inr fp \<and>
            out = Returned (new_entries st3) \<and>
            persisted st' = persisted st2 @ [(last_entry_key env c, fp)] \<and>
            simple_persistence st' = (simple_persistence st2)(last_entry_key env c \<mapsto> fp)"
          then obtain fp t es es1 st3 where f:
            "sort_entries a (entries r) = Inr es"
            "entry_loop env c (get_last_entry_id env c a (logm DEBUG Encoding st2)) es
              ((logm DEBUG Encoding st2)\<lparr>new_entries := [], ignored := 0\<rparr>) = (None, es1, st3)"
            "es1 \<noteq> []" "egetattr (hd es1) ''title'' = Some t"
            "py_add t (get_default (eget (hd es1) ''guid'') (Str [])) = Inr fp"
            "out = Returned (new_entries st3)"
            "persisted st' = persisted st2 @ [(last_entry_key env c, fp)]"
            "simple_persistence st' = (simple_persistence st2)(last_entry_key env c \<mapsto> fp)"
            by blast
          have p: "persisted st' = persisted st @ [(last_entry_key env c, fp)]"
            "simple_persistence st' = (simple_persistence st)(last_entry_key env c \<mapsto> fp)"
            using f(7,8) c2 by (simp_all add: cache_state_def)
          have g: "bozo_gate r ignore st1 = (Inr (), st2)"
            using bg Inr2 by simp
          have b: "check_bozo env c data r st = (Inr ignore, st1)"
            using cb Inr by simp
          show ?thesis
            using False Some b g f(1-6) p by blast
        qed
      qed
    qed
  qed
qed

lemma get_content_fetched:
  assumes "get_content env c hdrs st = (res, st')"
  shows "cache_state st' = cache_state st \<or>
         (\<exists>r auth. requests_get env (url c) hdrs auth = Some r \<and> status_code r = 200 \<and>
                   res = Inr (content r) \<and> st' = update_cache env c r st)"
  using assms
  by (auto simp: get_content_def Let_def split: option.splits if_splits)

text \<open>
  C1 as stated fails: the server answers 200 with an etag and a date, the document does
  not parse and has no entries, the run raises PluginError, and the etag and the date
  are in the store.
\<close>

theorem etag_persisted_on_abort:
  "fst (on_task_input (example_env login_page broken_feed) (Url ''http://example.org/rss'') fresh)
     = Raised PluginError \<and>
   persisted fresh = [] \<and>
   persisted (snd (on_task_input (example_env login_page broken_feed) (Url ''http://example.org/rss'') fresh))
     = [(''1234_etag'', Str (u ''v1'')), (''1234_modified'', Str (u ''Tue''))]"
  by (simp add: model_defs example_defs login_page_def broken_feed_def)

text \<open>
  C1, as the code has it. A run adds to the store first what the response gave, the etag
  and the date, each at most once, only after a 200 response to the request of this run
  and only when \<^verbatim>\<open>all_entries\<close> is not configured: they are stored before the parser
  runs. It adds the watermark last and at most once, and only on a run whose fetch gave a
  document (not a 304, not an error) that is not empty, whose parser returned, whose bozo
  exception did not end the run, whose entries were put in order, and whose loop over a
  feed that is not empty ended without an error: the watermark is the title plus the guid
  of the first entry as the loop left it, and the run returns the entries the loop
  created. Nothing else is stored, and a run that ends in the fetch stores nothing.
\<close>

theorem cache_state_writes:
  assumes "build_config config_given = Inr c"
    and "request_headers env c (all_entries c \<or> config_modified env \<or> nocache env)
           (logm DEBUG Requesting_task st) = (hdrs, st2)"
    and "get_content env c hdrs st2 = (fetch, st3)"
    and "on_task_input env config_given st = (out, st')"
  shows "\<exists>fetched saved.
     persisted st' = persisted st @ fetched @ saved \<and>
     simple_persistence st'
       = foldl (\<lambda>m kv. m(fst kv \<mapsto> snd kv)) (simple_persistence st) (fetched @ saved) \<and>
     distinct (map fst fetched) \<and>
     set (map fst fetched) \<subseteq> {etag_key env c, modified_key env c} \<and>
     (fetched \<noteq> [] \<longrightarrow>
        \<not> all_entries c \<and>
        (\<exists>auth r. requests_get env (url c) hdrs auth = Some r \<and> status_code r = 200 \<and>
                  fetch = Inr (content r))) \<and>
     (saved = [] \<or>
      (\<exists>fp t data r ignore st4 st5 es es1 st6.
         saved = [(last_entry_key env c, fp)] \<and>
         fetch = Inr data \<and> data \<noteq> [] \<and> parse env data = Some r \<and>
         check_bozo env c data r st3 = (Inr ignore, st4) \<and>
         bozo_gate r ignore st4 = (Inr (), st5) \<and>
         sort_entries (all_entries c \<or> config_modified env \<or> nocache env) (entries r) = Inr es \<and>
         entry_loop env c
           (get_last_entry_id env c (all_entries c \<or> config_modified env \<or> nocache env)
              (logm DEBUG Encoding st5))
           es ((logm DEBUG Encoding st5)\<lparr>new_entries := [], ignored := 0\<rparr>) = (None, es1, st6) \<and>
         es1 \<noteq> [] \<and> egetattr (hd es1) ''title'' = Some t \<and>
         py_add t (get_default (eget (hd es1) ''guid'') (Str [])) = Inr fp \<and>
         out = Returned (new_entries st6))) \<and>
     ((\<exists>ended. fetch = Inl ended) \<longrightarrow> out = projl fetch \<and> fetched = [] \<and> saved = [])"
proof -
  let ?a = "all_entries c \<or> config_modified env \<or> nocache env"
  have c2: "cache_state st2 = cache_state st"
    using request_headers_cache [of env c ?a "logm DEBUG Requesting_task st"] assms(2) by simp
  have fetched: "\<exists>fetched.
     persisted st3 = persisted st @ fetched \<and>
     simple_persistence st3 = foldl (\<lambda>m kv. m(fst kv \<mapsto> snd kv)) (simple_persistence st) fetched \<and>
     distinct (map fst fetched) \<and>
     set (map fst fetched) \<subseteq> {etag_key env c, modified_key env c} \<and>
     (fetched \<noteq> [] \<longrightarrow>
        \<not> all_entries c \<and>
        (\<exists>auth r. requests_get env (url c) hdrs auth = Some r \<and> status_code r = 200 \<and>
                  fetch = Inr (content r)))"
    using get_content_fetched [OF assms(3)]
  proof
    assume "cache_state st3 = cache_state st2"
    then have "persisted st3 = persisted st @ [] \<and>
        simple_persistence st3 = foldl (\<lambda>m kv. m(fst kv \<mapsto> snd kv)) (simple_persistence st) []"
      using c2 by (simp add: cache_state_def)
    then show ?thesis by (intro exI [of _ "[]"]) simp
  next
    assume "\<exists>r auth. requests_get env (url c) hdrs auth = Some r \<and> status_code r = 200 \<and>
                   fetch = Inr (content r) \<and> st3 = update_cache env c r st2"
    then obtain r auth where r: "requests_get env (url c) hdrs auth = Some r" "status_code r = 200"
        "fetch = Inr (content r)" "st3 = update_cache env c r st2"
      by blast
    from update_cache_writes [of env c r st2] obtain w where
      w: "persisted (update_cache env c r st2) = persisted st2 @ w"
         "simple_persistence (update_cache env c r st2)
            = foldl (\<lambda>m kv. m(fst kv \<mapsto> snd kv)) (simple_persistence st2) w"
         "distinct (map fst w)"
         "set (map fst w) \<subseteq> {etag_key env c, modified_key env c}"
         "w \<noteq> [] \<longrightarrow> \<not> all_entries c"
      by blast
    have "persisted st2 = persisted st" "simple_persistence st2 = simple_persistence st"
      using c2 by (simp_all add: cache_state_def)
    then show ?thesis
      using w r by (intro exI [of _ w]) auto
  qed
  then obtain w where w: "persisted st3 = persisted st @ w"
     "simple_persistence st3 = foldl (\<lambda>m kv. m(fst kv \<mapsto> snd kv)) (simple_persistence st) w"
     "distinct (map fst w)"
     "set (map fst w) \<subseteq> {etag_key env c, modified_key env c}"
     "w \<noteq> [] \<longrightarrow>
        \<not> all_entries c \<and>
        (\<exists>auth r. requests_get env (url c) hdrs auth = Some r \<and> status_code r = 200 \<and>
                  fetch = Inr (content r))"
    by blast
  have saved: "\<exists>saved.
      persisted st' = persisted st3 @ saved \<and>
      simple_persistence st' = foldl (\<lambda>m kv. m(fst kv \<mapsto> snd kv)) (simple_persistence st3) saved \<and>
      (saved = [] \<or>
       (\<exists>fp t data r ignore st4 st5 es es1 st6.
         saved = [(last_entry_key env c, fp)] \<and>
         fetch = Inr data \<and> data \<noteq> [] \<and> parse env data = Some r \<and>
         check_bozo env c data r st3 = (Inr ignore, st4) \<and>
         bozo_gate r ignore st4 = (Inr (), st5) \<and>
         sort_entries ?a (entries r) = Inr es \<and>
         entry_loop env c (get_last_entry_id env c ?a (logm DEBUG Encoding st5))
           es ((logm DEBUG Encoding st5)\<lparr>new_entries := [], ignored := 0\<rparr>) = (None, es1, st6) \<and>
         es1 \<noteq> [] \<and> egetattr (hd es1) ''title'' = Some t \<and>
         py_add t (get_default (eget (hd es1) ''guid'') (Str [])) = Inr fp \<and>
         out = Returned (new_entries st6))) \<and>
      ((\<exists>ended. fetch = Inl ended) \<longrightarrow> out = projl fetch \<and> saved = [])"
  proof (cases fetch)
    case (Inl o1)
    then have "st' = st3" "out = o1"
      using assms by (simp_all add: on_task_input_def)
    then show ?thesis using Inl by (intro exI [of _ "[]"]) simp
  next
    case (Inr data)
    then have pc: "parse_content env c ?a data st3 = (out, st')"
      using assms by (simp add: on_task_input_def)
    from parse_content_saved [OF pc] show ?thesis
    proof
      assume "cache_state st' = cache_state st3"
      then show ?thesis using Inr by (intro exI [of _ "[]"]) (simp add: cache_state_def)
    next
      assume "\<exists>fp t r ignore st1 st2 es es1 st3a.
        data \<noteq> [] \<and> parse env data = Some r \<and>
        check_bozo env c data r st3 = (Inr ignore, st1) \<and>
        bozo_gate r ignore st1 = (Inr (), st2) \<and>
        sort_entries ?a (entries r) = Inr es \<and>
        entry_loop env c (get_last_entry_id env c ?a (logm DEBUG Encoding st2)) es
          ((logm DEBUG Encoding st2)\<lparr>new_entries := [], ignored := 0\<rparr>) = (None, es1, st3a) \<and>
        es1 \<noteq> [] \<and> egetattr (hd es1) ''title'' = Some t \<and>
        py_add t (get_default (eget (hd es1) ''guid'') (Str [])) = Inr fp \<and>
        out = Returned (new_entries st3a) \<and>
        persisted st' = persisted st3 @ [(last_entry_key env c, fp)] \<and>
        simple_persistence st' = (simple_persistence st3)(last_entry_key env c \<mapsto> fp)"
      then obtain fp t r ignore st4 st5 es es1 st6 where f:
        "data \<noteq> []" "parse env data = Some r"
        "check_bozo env c data r st3 = (Inr ignore, st4)"
        "bozo_gate r ignore st4 = (Inr (), st5)"
        "sort_entries ?a (entries r) = Inr es"
        "entry_loop env c (get_last_entry_id env c ?a (logm DEBUG Encoding st5)) es
          ((logm DEBUG Encoding st5)\<lparr>new_entries := [], ignored := 0\<rparr>) = (None, es1, st6)"
        "es1 \<noteq> []" "egetattr (hd es1) ''title'' = Some t"
        "py_add t (get_default (eget (hd es1) ''guid'') (Str [])) = Inr fp"
        "out = Returned (new_entries st6)"
        "persisted st' = persisted st3 @ [(last_entry_key env c, fp)]"
        "simple_persistence st' = (simple_persistence st3)(last_entry_key env c \<mapsto> fp)"
        by blast
      have detail: "\<exists>fp' t data' r ignore st4 st5 es es1 st6.
         [(last_entry_key env c, fp)] = [(last_entry_key env c, fp')] \<and>
         fetch = Inr data' \<and> data' \<noteq> [] \<and> parse env data' = Some r \<and>
         check_bozo env c data' r st3 = (Inr ignore, st4) \<and>
         bozo_gate r ignore st4 = (Inr (), st5) \<and>
         sort_entries ?a (entries r) = Inr es \<and>
         entry_loop env c (get_last_entry_id env c ?a (logm DEBUG Encoding st5))
           es ((logm DEBUG Encoding st5)\<lparr>new_entries := [], ignored := 0\<rparr>) = (None, es1, st6) \<and>
         es1 \<noteq> [] \<and> egetattr (hd es1) ''title'' = Some t \<and>
         py_add t (get_default (eget (hd es1) ''guid'') (Str [])) = Inr fp' \<and>
         out = Returned (new_entries st6)"
        using Inr f(1-10) by blast
      show ?thesis
      proof (rule exI [of _ "[(last_entry_key env c, fp)]"], intro conjI)
        show "persisted st' = persisted st3 @ [(last_entry_key env c, fp)]"
          by (rule f(11))
        show "simple_persistence st'
            = foldl (\<lambda>m kv. m(fst kv \<mapsto> snd kv)) (simple_persistence st3) [(last_entry_key env c, fp)]"
          using f(12) by simp
        show "[(last_entry_key env c, fp)] = [] \<or>
          (\<exists>fp' t data r ignore st4 st5 es es1 st6.
             [(last_entry_key env c, fp)] = [(last_entry_key env c, fp')] \<and>
             fetch = Inr data \<and> data \<noteq> [] \<and> parse env data = Some r \<and>
             check_bozo env c data r st3 = (Inr ignore, st4) \<and>
             bozo_gate r ignore st4 = (Inr (), st5) \<and>
             sort_entries ?a (entries r) = Inr es \<and>
             entry_loop env c (get_last_entry_id env c ?a (logm DEBUG Encoding st5))
               es ((logm DEBUG Encoding st5)\<lparr>new_entries := [], ignored := 0\<rparr>) = (None, es1, st6) \<and>
             es1 \<noteq> [] \<and> egetattr (hd es1) ''title'' = Some t \<and>
             py_add t (get_default (eget (hd es1) ''guid'') (Str [])) = Inr fp' \<and>
             out = Returned (new_entries st6))"
          using detail by (rule disjI2)
        show "(\<exists>ended. fetch = Inl ended) \<longrightarrow> out = projl fetch \<and> [(last_entry_key env c, fp)] = []"
          using Inr by simp
      qed
    qed
  qed
  then obtain s where s: "persisted st' = persisted st3 @ s"
      "simple_persistence st' = foldl (\<lambda>m kv. m(fst kv \<mapsto> snd kv)) (simple_persistence st3) s"
      "s = [] \<or>
       (\<exists>fp t data r ignore st4 st5 es es1 st6.
         s = [(last_entry_key env c, fp)] \<and>
         fetch = Inr data \<and> data \<noteq> [] \<and> parse env data = Some r \<and>
         check_bozo env c data r st3 = (Inr ignore, st4) \<and>
         bozo_gate r ignore st4 = (Inr (), st5) \<and>
         sort_entries ?a (entries r) = Inr es \<and>
         entry_loop env c (get_last_entry_id env c ?a (logm DEBUG Encoding st5))
           es ((logm DEBUG Encoding st5)\<lparr>new_entries := [], ignored := 0\<rparr>) = (None, es1, st6) \<and>
         es1 \<noteq> [] \<and> egetattr (hd es1) ''title'' = Some t \<and>
         py_add t (get_default (eget (hd es1) ''guid'') (Str [])) = Inr fp \<and>
         out = Returned (new_entries st6))"
      "(\<exists>ended. fetch = Inl ended) \<longrightarrow> out = projl fetch \<and> s = []"
    by blast
  have wl: "(\<exists>ended. fetch = Inl ended) \<longrightarrow> w = []"
    using w(5) by auto
  show ?thesis
  proof (rule exI [of _ w], rule exI [of _ s], intro conjI)
    show "persisted st' = persisted st @ w @ s" using w(1) s(1) by simp
    show "simple_persistence st' = foldl (\<lambda>m kv. m(fst kv \<mapsto> snd kv)) (simple_persistence st) (w @ s)"
      using w(2) s(2) by simp
    show "distinct (map fst w)" by (rule w(3))
    show "set (map fst w) \<subseteq> {etag_key env c, modified_key env c}" by (rule w(4))
    show "w \<noteq> [] \<longrightarrow>
        \<not> all_entries c \<and>
        (\<exists>auth r. requests_get env (url c) hdrs auth = Some r \<and> status_code r = 200 \<and>
                  fetch = Inr (content r))" by (rule w(5))
    show "s = [] \<or>
       (\<exists>fp t data r ignore st4 st5 es es1 st6.
         s = [(last_entry_key env c, fp)] \<and>
         fetch = Inr data \<and> data \<noteq> [] \<and> parse env data = Some r \<and>
         check_bozo env c data r st3 = (Inr ignore, st4) \<and>
         bozo_gate r ignore st4 = (Inr (), st5) \<and>
         sort_entries ?a (entries r) = Inr es \<and>
         entry_loop env c (get_last_entry_id env c ?a (logm DEBUG Encoding st5))
           es ((logm DEBUG Encoding st5)\<lparr>new_entries := [], ignored := 0\<rparr>) = (None, es1, st6) \<and>
         es1 \<noteq> [] \<and> egetattr (hd es1) ''title'' = Some t \<and>
         py_add t (get_default (eget (hd es1) ''guid'') (Str [])) = Inr fp \<and>
         out = Returned (new_entries st6))" by (rule s(3))
    show "(\<exists>ended. fetch = Inl ended) \<longrightarrow> out = projl fetch \<and> w = [] \<and> s = []"
      using s(4) wl by blast
  qed
qed

text \<open>
  C1 on an example: a 200 response with an etag and a feed of one entry; the run stores
  the etag, then the watermark, and it is a run that fetched a document, parsed it and
  returns its entries.
\<close>

theorem cache_state_writes_witness:
  "build_config (Url ''http://example.org/rss'') = Inr
      \<lparr>url = ''http://example.org/rss'', username = None, password = None, title = None,
       link = LinkField ''auto'', other_fields = None, silent = None, ascii = None,
       filename = None, group_links = False, all_entries = False\<rparr> \<and>
   persisted (snd (on_task_input (example_env feed_server one_entry_feed)
         (Url ''http://example.org/rss'') fresh))
     = [(''1234_etag'', Str (u ''v1'')), (''1234_last_entry'', Str (u ''A''))] \<and>
   (\<exists>data r items.
      fst (get_content (example_env feed_server one_entry_feed)
        \<lparr>url = ''http://example.org/rss'', username = None, password = None, title = None,
         link = LinkField ''auto'', other_fields = None, silent = None, ascii = None,
         filename = None, group_links = False, all_entries = False\<rparr>
        [] (logm DEBUG Requesting_task fresh)) = Inr data \<and>
      data \<noteq> [] \<and> parse (example_env feed_server one_entry_feed) data = Some r \<and>
      fst (on_task_input (example_env feed_server one_entry_feed)
         (Url ''http://example.org/rss'') fresh) = Returned items)"
proof -
  let ?c = "\<lparr>url = ''http://example.org/rss'', username = None, password = None, title = None,
       link = LinkField ''auto'', other_fields = None, silent = None, ascii = None,
       filename = None, group_links = False, all_entries = False\<rparr>"
  let ?env = "example_env feed_server one_entry_feed"
  let ?run = "on_task_input ?env (Url ''http://example.org/rss'') fresh"
  let ?get = "get_content ?env ?c [] (logm DEBUG Requesting_task fresh)"
  have c: "build_config (Url ''http://example.org/rss'') = Inr ?c"
    by (simp add: build_config_def empty_raw_config_def get_default_def)
  have h: "request_headers ?env ?c (all_entries ?c \<or> config_modified ?env \<or> nocache ?env)
      (logm DEBUG Requesting_task fresh) = ([], logm DEBUG Requesting_task fresh)"
    by (simp add: request_headers_def example_env_def fresh_def logm_def
        truthy_opt_def etag_key_def modified_key_def)
  have g: "?get = (fst ?get, snd ?get)"
    by simp
  have run: "?run = (fst ?run, snd ?run)"
    by simp
  have keys: "etag_key ?env ?c = ''1234_etag''" "modified_key ?env ?c = ''1234_modified''"
      "last_entry_key ?env ?c = ''1234_last_entry''"
    by (simp_all add: etag_key_def modified_key_def last_entry_key_def example_env_def)
  have p: "persisted (snd ?run) = [(''1234_etag'', Str (u ''v1'')), (''1234_last_entry'', Str (u ''A''))]"
    by (simp add: model_defs example_defs feed_server_def one_entry_feed_def)
  from cache_state_writes [OF c h g run] obtain fetched saved where
    f: "persisted (snd ?run) = persisted fresh @ fetched @ saved"
       "set (map fst fetched) \<subseteq> {etag_key ?env ?c, modified_key ?env ?c}"
       "saved = [] \<or>
        (\<exists>fp t data r ignore st4 st5 es es1 st6.
           saved = [(last_entry_key ?env ?c, fp)] \<and>
           fst ?get = Inr data \<and> data \<noteq> [] \<and> parse ?env data = Some r \<and>
           check_bozo ?env ?c data r (snd ?get) = (Inr ignore, st4) \<and>
           bozo_gate r ignore st4 = (Inr (), st5) \<and>
           sort_entries (all_entries ?c \<or> config_modified ?env \<or> nocache ?env) (entries r) = Inr es \<and>
           entry_loop ?env ?c
             (get_last_entry_id ?env ?c (all_entries ?c \<or> config_modified ?env \<or> nocache ?env)
                (logm DEBUG Encoding st5))
             es ((logm DEBUG Encoding st5)\<lparr>new_entries := [], ignored := 0\<rparr>) = (None, es1, st6) \<and>
           es1 \<noteq> [] \<and> egetattr (hd es1) ''title'' = Some t \<and>
           py_add t (get_default (eget (hd es1) ''guid'') (Str [])) = Inr fp \<and>
           fst ?run = Returned (new_entries st6))"
    by blast
  have "saved \<noteq> []"
  proof
    assume "saved = []"
    then have "set (map fst (persisted (snd ?run))) \<subseteq> {''1234_etag'', ''1234_modified''}"
      using f(1,2) keys by (simp add: fresh_def)
    then show False using p by simp
  qed
  then have "\<exists>data r items. fst ?get = Inr data \<and> data \<noteq> [] \<and> parse ?env data = Some r \<and>
      fst ?run = Returned items"
    using f(3) by blast
  then show ?thesis using c p by blast
qed

subsection \<open>The watermark ends the loop\<close>

lemma eget_title_attr [simp]: "eget (e\<lparr>title_attr := x\<rparr>) k = eget e k"
  by (simp add: eget_def)

lemma get_enclosures_title_attr [simp]: "get_enclosures (e\<lparr>title_attr := x\<rparr>) = get_enclosures e"
  by (simp add: get_enclosures_def)

lemma process_entry_match:
  assumes "fingerprint c m = Some lid"
  shows "process_entry env c lid m st =
     (Break, m\<lparr>title_attr := eget m (get_default (title c) ''title'')\<rparr>,
      (logm VERBOSE Not_processing_entries_from_last_run st)\<lparr>no_entries_ok := True\<rparr>)"
  using assms
  by (auto simp: fingerprint_def process_entry_def Let_def split: option.splits sum.splits if_splits)

lemma create_from_entry_not_Break: "create_from_entry env c entry st \<noteq> (Break, st')"
  by (auto simp: create_from_entry_def split: prod.splits option.splits sum.splits if_splits)

lemma process_entry_no_match:
  assumes "fingerprint c e \<noteq> Some lid"
  shows "process_entry env c lid e st \<noteq> (Break, e', st')"
  using assms create_from_entry_not_Break
  by (auto simp: fingerprint_def process_entry_def Let_def split: option.splits sum.splits if_splits prod.splits)

lemma entry_loop_horizon:
  assumes "fingerprint c m = Some lid"
    and "\<forall>e \<in> set pre. fingerprint c e \<noteq> Some lid"
  shows "entry_loop env c lid (pre @ m # post) st =
           (case entry_loop env c lid pre st of
              (Some err, pre', st') \<Rightarrow> (Some err, pre' @ m # post, st')
            | (None, pre', st') \<Rightarrow>
                (None,
                 pre' @ m\<lparr>title_attr := eget m (get_default (title c) ''title'')\<rparr> # post,
                 (logm VERBOSE Not_processing_entries_from_last_run st')\<lparr>no_entries_ok := True\<rparr>))"
  using assms(2)
proof (induction pre arbitrary: st)
  case Nil
  then show ?case
    using process_entry_match [OF assms(1), of env st] by simp
next
  case (Cons e pre)
  obtain r e1 st1 where p: "process_entry env c lid e st = (r, e1, st1)"
    by (cases "process_entry env c lid e st")
  have nb: "r \<noteq> Break"
    using process_entry_no_match [of c e lid env st e1 st1] Cons.prems p by auto
  have rest: "\<forall>e \<in> set pre. fingerprint c e \<noteq> Some lid"
    using Cons.prems by simp
  note ih = Cons.IH [OF rest, of st1]
  show ?case
  proof (cases r)
    case Continue
    obtain r2 es2 st2 where l: "entry_loop env c lid pre st1 = (r2, es2, st2)"
      by (cases "entry_loop env c lid pre st1")
    show ?thesis
      using p Continue ih l by (cases r2) simp_all
  next
    case Break
    then show ?thesis using nb by simp
  next
    case (Raise err)
    then show ?thesis using p by simp
  qed
qed

text \<open>
  C5, as the code has it: the first entry that has a non-empty title and whose fingerprint
  is the stored one ends the loop; that entry and the entries after it add nothing, and
  the entries before it are processed exactly as if the feed ended there (the same
  entries created, the same error if one of them raises).
\<close>

theorem dedup_horizon:
  assumes "fingerprint c m = Some last_entry_id"
    and "\<forall>e \<in> set pre. fingerprint c e \<noteq> Some last_entry_id"
  shows "entry_loop env c last_entry_id (pre @ m # post) st =
           (case entry_loop env c last_entry_id pre st of
              (Some err, pre', st') \<Rightarrow> (Some err, pre' @ m # post, st')
            | (None, pre', st') \<Rightarrow>
                (None,
                 pre' @ m\<lparr>title_attr := eget m (get_default (title c) ''title'')\<rparr> # post,
                 (logm VERBOSE Not_processing_entries_from_last_run st')\<lparr>no_entries_ok := True\<rparr>)) \<and>
         new_entries (snd (snd (entry_loop env c last_entry_id (pre @ m # post) st)))
           = new_entries (snd (snd (entry_loop env c last_entry_id pre st)))"
proof -
  note eq = entry_loop_horizon [OF assms, of env post st]
  obtain r pre' st' where l: "entry_loop env c last_entry_id pre st = (r, pre', st')"
    by (cases "entry_loop env c last_entry_id pre st")
  have "new_entries (snd (snd (entry_loop env c last_entry_id (pre @ m # post) st))) = new_entries st'"
    using eq l by (cases r) (simp_all add: logm_def)
  then show ?thesis
    using eq l by simp
qed

text \<open>
  C5 on an example: five entries, the stored fingerprint is that of the entry at index 2;
  the entries created are those of index 0 and 1.
\<close>

theorem dedup_horizon_witness:
  "fingerprint default_config (titled ''E2'' ''http://x/2'') = Some (Str (u ''E2'')) \<and>
   fingerprint default_config (titled ''E0'' ''http://x/0'') \<noteq> Some (Str (u ''E2'')) \<and>
   fingerprint default_config (titled ''E1'' ''http://x/1'') \<noteq> Some (Str (u ''E2'')) \<and>
   map (\<lambda>i. i ''title'')
     (new_entries (snd (snd (entry_loop (example_env no_network (clean_feed []))
        default_config (Str (u ''E2'')) five_entries fresh))))
     = [Some (Str (u ''E0'')), Some (Str (u ''E1''))]"
proof -
  let ?env = "example_env no_network (clean_feed [])"
  have m: "fingerprint default_config (titled ''E2'' ''http://x/2'') = Some (Str (u ''E2''))"
    by (simp add: fingerprint_def model_defs example_defs)
  have n0: "fingerprint default_config (titled ''E0'' ''http://x/0'') \<noteq> Some (Str (u ''E2''))"
    by (simp add: fingerprint_def model_defs example_defs)
  have n1: "fingerprint default_config (titled ''E1'' ''http://x/1'') \<noteq> Some (Str (u ''E2''))"
    by (simp add: fingerprint_def model_defs example_defs)
  have pre: "\<forall>e \<in> set [titled ''E0'' ''http://x/0'', titled ''E1'' ''http://x/1''].
      fingerprint default_config e \<noteq> Some (Str (u ''E2''))"
    using n0 n1 by simp
  have split: "five_entries = [titled ''E0'' ''http://x/0'', titled ''E1'' ''http://x/1'']
      @ titled ''E2'' ''http://x/2'' # [titled ''E3'' ''http://x/3'', titled ''E4'' ''http://x/4'']"
    by (simp add: five_entries_def)
  have two: "map (\<lambda>i. i ''title'')
     (new_entries (snd (snd (entry_loop ?env default_config (Str (u ''E2''))
        [titled ''E0'' ''http://x/0'', titled ''E1'' ''http://x/1''] fresh))))
     = [Some (Str (u ''E0'')), Some (Str (u ''E1''))]"
    by (simp add: model_defs example_defs)
  have "new_entries (snd (snd (entry_loop ?env default_config (Str (u ''E2'')) five_entries fresh)))
      = new_entries (snd (snd (entry_loop ?env default_config (Str (u ''E2''))
          [titled ''E0'' ''http://x/0'', titled ''E1'' ''http://x/1''] fresh)))"
    unfolding split
    using dedup_horizon [OF m pre, of ?env
        "[titled ''E3'' ''http://x/3'', titled ''E4'' ''http://x/4'']" fresh]
    by blast
  then show ?thesis using m n0 n1 two by simp
qed

text \<open>
  C5 as stated fails, on two runs over the same feed: the first entry has an empty title
  and the guid g. The first run stores the watermark g, the empty title plus the guid. In
  the second run the title plus the guid of the first entry is the stored fingerprint, but
  the loop skips the entry for its title without comparing, and the entry after it is
  created again.
\<close>

theorem empty_title_match_does_not_halt:
  "persisted (snd (on_task_input (example_env no_network empty_title_feed) (Url ''feed.xml'') fresh))
     = [(''1234_last_entry'', Str (u ''g''))] \<and>
   map_option (\<lambda>t. py_add t (get_default (eget (hd (entries empty_title_feed)) ''guid'') (Str [])))
     (eget (hd (entries empty_title_feed)) ''title'') = Some (Inr (Str (u ''g''))) \<and>
   summary (fst (on_task_input (example_env no_network empty_title_feed) (Url ''feed.xml'')
       (snd (on_task_input (example_env no_network empty_title_feed) (Url ''feed.xml'') fresh))))
     = Some [(Some (Str (u ''B'')), Some (Str (u ''http://x/2'')))]"
  by (simp add: model_defs example_defs empty_title_feed_def)

subsection \<open>The entries one feed entry creates\<close>

lemma new_entries_logm [simp]: "new_entries (logm l m st) = new_entries st"
  by (simp add: logm_def)

lemma dict_set_values: "snd ` set (dict_set k v d) \<subseteq> insert v (snd ` set d)"
proof (induction d)
  case Nil
  then show ?case by simp
next
  case (Cons kv d)
  obtain k' v' where kv: "kv = (k', v')" by (cases kv)
  show ?case
  proof (cases "k = k'")
    case True
    then show ?thesis unfolding kv by auto
  next
    case False
    then show ?thesis using Cons unfolding kv by auto
  qed
qed

lemma foldl_dict_set_values:
  "snd ` set (foldl (\<lambda>d (k, v). dict_set k v d) d0 kvs) \<subseteq> snd ` set d0 \<union> snd ` set kvs"
proof (induction kvs arbitrary: d0)
  case Nil
  then show ?case by simp
next
  case (Cons kv kvs)
  obtain k v where kv: "kv = (k, v)" by (cases kv)
  have "snd ` set (foldl (\<lambda>d (k, v). dict_set k v d) (dict_set k v d0) kvs)
      \<subseteq> snd ` set (dict_set k v d0) \<union> snd ` set kvs"
    by (rule Cons.IH)
  then show ?case
    using dict_set_values [of k v d0] unfolding kv by auto
qed

lemma grab_fields_of_values:
  "snd ` set (grab_fields_of c)
     \<subseteq> {''guid'', ''author'', ''description'', ''torrent_info_hash''}
        \<union> snd ` set (get_default (other_fields c) [])"
  using foldl_dict_set_values [of fixed_fields "get_default (other_fields c) []"]
  by (simp add: grab_fields_of_def fixed_fields_def)

lemma grab_fields_new_entries:
  "new_entries (snd (grab_fields env c entry fs ea st)) = new_entries st"
proof (induction fs arbitrary: ea st)
  case Nil
  then show ?case by simp
next
  case (Cons f fs)
  obtain rss_field flexget_field where f: "f = (rss_field, flexget_field)"
    by (cases f)
  show ?case
    unfolding f by (simp add: Cons split: option.splits val.splits)
qed

lemma grab_fields_keeps:
  "grab_fields env c entry fs ea st = (Inr ea', st') \<Longrightarrow> k \<notin> snd ` set fs \<Longrightarrow> ea' k = ea k"
proof (induction fs arbitrary: ea st)
  case Nil
  then show ?case by simp
next
  case (Cons f fs)
  obtain rss_field flexget_field where f: "f = (rss_field, flexget_field)"
    by (cases f)
  have k: "k \<noteq> flexget_field" "k \<notin> snd ` set fs"
    using Cons.prems(2) f by auto
  show ?case
    using Cons.prems(1) k Cons.IH unfolding f
    by (auto split: option.splits val.splits if_splits)
qed

lemma add_entry_result:
  assumes "add_entry env c entry ea st = (r, st')"
  shows "(r \<noteq> None \<and> new_entries st' = new_entries st) \<or>
         (r = None \<and>
          (\<exists>i. new_entries st' = new_entries st @ [i] \<and>
               (\<forall>k. k \<notin> snd ` set (grab_fields_of c) \<longrightarrow>
                    k \<notin> {''title'', ''rss_pubdate'', ''basic_auth_username'', ''basic_auth_password''} \<longrightarrow>
                    i k = ea k)))"
proof (cases "egetattr entry ''title''")
  case None
  then show ?thesis using assms by (auto simp: add_entry_def)
next
  case (Some t)
  obtain g st1 where g: "grab_fields env c entry (grab_fields_of c) (ea(''title'' \<mapsto> t)) st = (g, st1)"
    by (cases "grab_fields env c entry (grab_fields_of c) (ea(''title'' \<mapsto> t)) st")
  have n1: "new_entries st1 = new_entries st"
    using grab_fields_new_entries [of env c entry "grab_fields_of c" "ea(''title'' \<mapsto> t)" st] g by simp
  show ?thesis
  proof (cases g)
    case (Inl err)
    then show ?thesis using assms Some g n1 by (auto simp: add_entry_def)
  next
    case (Inr ea1)
    have keep: "\<And>k. k \<notin> snd ` set (grab_fields_of c) \<Longrightarrow> ea1 k = (ea(''title'' \<mapsto> t)) k"
      using grab_fields_keeps [of env c entry "grab_fields_of c" "ea(''title'' \<mapsto> t)" st ea1 st1] g Inr
      by blast
    show ?thesis
      using assms Some g Inr n1 keep
      by (auto simp: add_entry_def Let_def split: option.splits)
  qed
qed

lemma add_enclosure_info_result:
  assumes "add_enclosure_info env Map.empty enc f m st = (r, st1)"
  shows "new_entries st1 = new_entries st \<and>
         (\<forall>ee. r = Inr ee \<longrightarrow>
            ee ''url'' = map_option Str (enc_href enc) \<and> enc_href enc \<noteq> None \<and>
            ee ''size'' = map_option (\<lambda>l. IntV (get_default (py_int env l) 0)) (enc_length enc))"
  using assms
  by (auto simp: add_enclosure_info_def Let_def split: option.splits if_splits)


lemma fan_out_items:
  assumes "fan_out env c entry encs st = (None, st')"
    and "''url'' \<notin> snd ` set (grab_fields_of c)"
    and "''size'' \<notin> snd ` set (grab_fields_of c)"
  shows "\<exists>new. new_entries st' = new_entries st @ new \<and>
     map (\<lambda>i. i ''url'') new
       = map (\<lambda>enc. map_option Str (enc_href enc)) (filter (\<lambda>enc. enc_href enc \<noteq> None) encs) \<and>
     map (\<lambda>i. i ''size'') new
       = map (\<lambda>enc. map_option (\<lambda>l. IntV (get_default (py_int env l) 0)) (enc_length enc))
           (filter (\<lambda>enc. enc_href enc \<noteq> None) encs)"
  using assms(1)
proof (induction encs arbitrary: st)
  case Nil
  then show ?case by simp
next
  case (Cons enc encs)
  show ?case
  proof (cases "enc_href enc")
    case None
    then have "fan_out env c entry encs (logm DEBUG Enclosure_does_not_have_URL st) = (None, st')"
      using Cons.prems by simp
    from Cons.IH [OF this] show ?thesis using None by simp
  next
    case (Some h)
    obtain a st1 where a: "add_enclosure_info env Map.empty enc (get_default (filename c) True) True st = (a, st1)"
      by (cases "add_enclosure_info env Map.empty enc (get_default (filename c) True) True st")
    note ai = add_enclosure_info_result [OF a]
    show ?thesis
    proof (cases a)
      case (Inl err)
      then show ?thesis using Cons.prems Some a by simp
    next
      case (Inr ee)
      obtain r2 st2 where b: "add_entry env c entry ee st1 = (r2, st2)"
        by (cases "add_entry env c entry ee st1")
      note ae = add_entry_result [OF b]
      show ?thesis
      proof (cases r2)
        case (Some err)
        then show ?thesis using Cons.prems \<open>enc_href enc = Some h\<close> a Inr b by simp
      next
        case None
        then obtain i where i: "new_entries st2 = new_entries st1 @ [i]"
            "\<forall>k. k \<notin> snd ` set (grab_fields_of c) \<longrightarrow>
                k \<notin> {''title'', ''rss_pubdate'', ''basic_auth_username'', ''basic_auth_password''} \<longrightarrow>
                i k = ee k"
          using ae by auto
        have iurl: "i ''url'' = map_option Str (enc_href enc)"
          and isize: "i ''size'' = map_option (\<lambda>l. IntV (get_default (py_int env l) 0)) (enc_length enc)"
          using i(2) assms(2,3) ai Inr by simp_all
        have "fan_out env c entry encs st2 = (None, st')"
          using Cons.prems \<open>enc_href enc = Some h\<close> a Inr b None by simp
        from Cons.IH [OF this] obtain new where new: "new_entries st' = new_entries st2 @ new"
            "map (\<lambda>i. i ''url'') new
               = map (\<lambda>enc. map_option Str (enc_href enc)) (filter (\<lambda>enc. enc_href enc \<noteq> None) encs)"
            "map (\<lambda>i. i ''size'') new
               = map (\<lambda>enc. map_option (\<lambda>l. IntV (get_default (py_int env l) 0)) (enc_length enc))
                   (filter (\<lambda>enc. enc_href enc \<noteq> None) encs)"
          by blast
        show ?thesis
        proof (intro exI [of _ "i # new"] conjI)
          show "new_entries st' = new_entries st @ i # new"
            using new(1) i(1) ai by simp
          show "map (\<lambda>i. i ''url'') (i # new)
             = map (\<lambda>enc. map_option Str (enc_href enc)) (filter (\<lambda>enc. enc_href enc \<noteq> None) (enc # encs))"
            using new(2) iurl \<open>enc_href enc = Some h\<close> by simp
          show "map (\<lambda>i. i ''size'') (i # new)
             = map (\<lambda>enc. map_option (\<lambda>l. IntV (get_default (py_int env l) 0)) (enc_length enc))
                 (filter (\<lambda>enc. enc_href enc \<noteq> None) (enc # encs))"
            using new(3) isize \<open>enc_href enc = Some h\<close> by simp
        qed
      qed
    qed
  qed
qed

text \<open>
  C9, as the code has it: for an entry with more than one enclosure, without
  \<^verbatim>\<open>group_links\<close>, when nothing raises, the entries created are one for each enclosure
  that has the key href, in the order of the enclosures and none for the entry itself;
  the url of each is the href, and its size is the length read as a number, 0 when it does
  not read as one, and missing when the enclosure has no length. No field of
  \<^verbatim>\<open>other_fields\<close> is copied onto url or size.
\<close>

theorem fan_out_one_entry_per_href:
  assumes "1 < length (get_enclosures entry)" and "\<not> group_links c"
    and "create_from_entry env c entry st = (Continue, st')"
    and "''url'' \<notin> snd ` set (get_default (other_fields c) [])"
    and "''size'' \<notin> snd ` set (get_default (other_fields c) [])"
  shows "\<exists>new. new_entries st' = new_entries st @ new \<and>
     map (\<lambda>i. i ''url'') new
       = map (\<lambda>enc. map_option Str (enc_href enc))
           (filter (\<lambda>enc. enc_href enc \<noteq> None) (get_enclosures entry)) \<and>
     map (\<lambda>i. i ''size'') new
       = map (\<lambda>enc. map_option (\<lambda>l. IntV (get_default (py_int env l) 0)) (enc_length enc))
           (filter (\<lambda>enc. enc_href enc \<noteq> None) (get_enclosures entry))"
proof -
  let ?st = "logm DEBUG (Adding_entries_from_enclosures (length (get_enclosures entry))) st"
  have f: "fan_out env c entry (get_enclosures entry) ?st = (None, st')"
    using assms(3) unfolding create_from_entry_fan_out [OF assms(1,2)]
    by (auto split: prod.splits option.splits)
  have "''url'' \<notin> snd ` set (grab_fields_of c)" "''size'' \<notin> snd ` set (grab_fields_of c)"
    using grab_fields_of_values [of c] assms(4,5) by auto
  from fan_out_items [OF f this] show ?thesis by simp
qed

text \<open>
  C9 on an example: three enclosures with an href, the lengths 10, none and n/a; three
  entries are created, with the three hrefs and the sizes 10, none and 0.
\<close>

theorem fan_out_one_entry_per_href_witness:
  "1 < length (get_enclosures three_hrefs) \<and> \<not> group_links default_config \<and>
   fst (create_from_entry (example_env no_network (clean_feed [])) default_config three_hrefs fresh)
     = Continue \<and>
   map (\<lambda>i. i ''url'')
     (new_entries (snd (create_from_entry (example_env no_network (clean_feed [])) default_config
        three_hrefs fresh)))
     = [Some (Str (u ''http://x/a'')), Some (Str (u ''http://x/b'')), Some (Str (u ''http://x/c''))] \<and>
   map (\<lambda>i. i ''size'')
     (new_entries (snd (create_from_entry (example_env no_network (clean_feed [])) default_config
        three_hrefs fresh)))
     = [Some (IntV 10), None, Some (IntV 0)]"
proof -
  let ?env = "example_env no_network (clean_feed [])"
  let ?run = "create_from_entry ?env default_config three_hrefs fresh"
  have n: "1 < length (get_enclosures three_hrefs)"
    by (simp add: three_hrefs_def entry_of_def get_enclosures_def)
  have g: "\<not> group_links default_config"
    by (simp add: default_config_def)
  have k: "fst ?run = Continue"
    by (simp add: model_defs example_defs three_hrefs_def)
  then have run: "?run = (Continue, snd ?run)"
    by (cases ?run) simp
  have o: "''url'' \<notin> snd ` set (get_default (other_fields default_config) [])"
      "''size'' \<notin> snd ` set (get_default (other_fields default_config) [])"
    by (simp_all add: default_config_def get_default_def)
  from fan_out_one_entry_per_href [OF n g run o] obtain new where
    new: "new_entries (snd ?run) = new_entries fresh @ new"
      "map (\<lambda>i. i ''url'') new
       = map (\<lambda>enc. map_option Str (enc_href enc))
           (filter (\<lambda>enc. enc_href enc \<noteq> None) (get_enclosures three_hrefs))"
      "map (\<lambda>i. i ''size'') new
       = map (\<lambda>enc. map_option (\<lambda>l. IntV (get_default (py_int ?env l) 0)) (enc_length enc))
           (filter (\<lambda>enc. enc_href enc \<noteq> None) (get_enclosures three_hrefs))"
    by blast
  have e: "new_entries (snd ?run) = new"
    using new(1) by (simp add: fresh_def)
  have "map (\<lambda>i. i ''url'') new
      = [Some (Str (u ''http://x/a'')), Some (Str (u ''http://x/b'')), Some (Str (u ''http://x/c''))]"
    unfolding new(2) by (simp add: three_hrefs_def entry_of_def enclosure_of_def get_enclosures_def)
  moreover have "map (\<lambda>i. i ''size'') new = [Some (IntV 10), None, Some (IntV 0)]"
    unfolding new(3)
    by (simp add: three_hrefs_def entry_of_def enclosure_of_def get_enclosures_def example_env_def
        decimal_def get_default_def u_def)
  ultimately show ?thesis
    using n g k e by simp
qed

text \<open>
  C9 as stated fails: of three enclosures the second has no href, and two entries are
  created, not three.
\<close>

theorem enclosure_without_href_skipped:
  "map (\<lambda>e. length (get_enclosures e)) (entries three_enclosures_feed) = [3] \<and>
   summary (fst (on_task_input (example_env no_network three_enclosures_feed) (Url ''feed.xml'') fresh))
     = Some [(Some (Str (u ''A'')), Some (Str (u ''http://x/a''))),
             (Some (Str (u ''A'')), Some (Str (u ''http://x/c'')))]"
  by (simp add: model_defs example_defs three_enclosures_feed_def)









end
